theory Spec2Isabelle
  imports Main "HOL-Library.Sublist"
begin

section \<open>lodash-up: the mixins of \<^verbatim>\<open>src/index.js\<close>\<close>

text \<open>
  The library adds a handful of pure helpers to lodash. This theory embeds the ones
  the specification makes promises about and checks those promises.

  Conventions of the embedding.
  \<^item> A JavaScript string is a \<open>string\<close> (a list of characters), read as ASCII text.
  \<^item> A JavaScript number is a double. Where a function only prints, compares or
    copies a number that holds an integer, the number is an \<open>int\<close>. Where the
    arithmetic of a function can leave the integers that a double holds exactly
    (\<open>strToSec\<close> and \<open>secToStr\<close>), numbers are values of the type \<open>number\<close>, and
    every operation rounds as the double operation does. Fractions are not values of
    the model.
  \<^item> Whatever the source throws is a value of type \<open>error\<close>, returned as \<open>Inl\<close>.
\<close>

subsection \<open>Numbers and their decimal text\<close>

text \<open>\<open>String(n)\<close> for an integer \<open>n\<close>: the decimal digits, with a minus sign.\<close>

definition digit_char :: "nat \<Rightarrow> char" where
  "digit_char d = ''0123456789'' ! d"

function show_nat :: "nat \<Rightarrow> string" where
  "show_nat n =
     (if n < 10 then [digit_char n] else show_nat (n div 10) @ [digit_char (n mod 10)])"
  by pat_completeness auto
termination
  by (relation "measure (\<lambda>n. n)") auto

declare show_nat.simps [simp del]

definition show_int :: "int \<Rightarrow> string" where
  "show_int i = (if i < 0 then CHR ''-'' # show_nat (nat (- i)) else show_nat (nat i))"

text \<open>
  \<open>parseInt(s, 10)\<close>: leading white space is skipped, one sign is read, then the
  longest run of decimal digits; no digit at all gives \<open>NaN\<close>, here \<open>None\<close>.
\<close>

definition is_digit :: "char \<Rightarrow> bool" where
  "is_digit c = (48 \<le> (of_char c :: nat) \<and> (of_char c :: nat) \<le> 57)"

definition digit_val :: "char \<Rightarrow> nat" where
  "digit_val c = of_char c - 48"

definition is_space :: "char \<Rightarrow> bool" where
  "is_space c = ((of_char c :: nat) \<in> {9, 10, 11, 12, 13, 32})"

definition digits_value :: "string \<Rightarrow> nat" where
  "digits_value ds = foldl (\<lambda>acc c. acc * 10 + digit_val c) 0 ds"

definition parseInt10 :: "string \<Rightarrow> int option" where
  "parseInt10 s =
     (let t = dropWhile is_space s;
          neg = (case t of [] \<Rightarrow> False | c # _ \<Rightarrow> c = CHR ''-'');
          u = (case t of [] \<Rightarrow> [] | c # r \<Rightarrow> if c = CHR ''-'' \<or> c = CHR ''+'' then r else t);
          ds = takeWhile is_digit u
      in if ds = [] then None
         else Some (if neg then - int (digits_value ds) else int (digits_value ds)))"

subsection \<open>Doubles that hold integers\<close>

text \<open>
  The values of the arithmetic below: the doubles whose value is an integer, \<open>NaN\<close>
  and the two infinities. \<open>Finite n\<close> is the double whose value is \<open>n\<close>.
\<close>

datatype number = NaN | Finite int | PlusInfinity | MinusInfinity

text \<open>The length of a natural number in binary.\<close>

function bits :: "nat \<Rightarrow> nat" where
  "bits n = (if n = 0 then 0 else Suc (bits (n div 2)))"
  by pat_completeness auto
termination
  by (relation "measure (\<lambda>n. n)") auto

declare bits.simps [simp del]

text \<open>The integer nearest to \<open>a / b\<close> for \<open>0 < b\<close>, the even one of two that are equally near.\<close>

definition round_even :: "int \<Rightarrow> int \<Rightarrow> int" where
  "round_even a b =
     (let q = a div b; r = a mod b
      in if 2 * r > b \<or> (2 * r = b \<and> odd q) then q + 1 else q)"

text \<open>
  The double nearest to an integer \<open>v\<close>: \<open>v\<close> itself while it has at most 53 binary
  digits, and otherwise \<open>v\<close> rounded to 53 of them, to the even neighbour on a tie. What
  reaches \<open>2^1024\<close> that way is an infinity. This is the value of an integer literal,
  of a product and of a sum of doubles that hold integers.
\<close>

definition to_double :: "int \<Rightarrow> int" where
  "to_double v = (let e = bits (nat \<bar>v\<bar>) - 53 in round_even v (2 ^ e) * 2 ^ e)"

definition number_of :: "int \<Rightarrow> number" where
  "number_of v =
     (let d = to_double v
      in if 2 ^ 1024 \<le> d then PlusInfinity
         else if d \<le> - (2 ^ 1024) then MinusInfinity
         else Finite d)"

text \<open>
  \<open>Math.floor(a / d)\<close> for a double \<open>a\<close> that holds an integer and a divisor \<open>0 < d\<close>.
  The quotient is rounded to a double before \<open>floor\<close> sees it: with \<open>k\<close> the binary
  exponent of \<open>a / d\<close> (\<open>2^k \<le> \<bar>a / d\<bar> < 2^(k + 1)\<close>), the double is the multiple of
  \<open>2^(k - 52)\<close> nearest to \<open>a / d\<close>.
\<close>

definition floor_quotient :: "int \<Rightarrow> int \<Rightarrow> int" where
  "floor_quotient a d =
     (if a = 0 then 0
      else
        (let k0 = int (bits (nat \<bar>a\<bar>)) - int (bits (nat d));
             k = (if d * 2 ^ nat k0 \<le> \<bar>a\<bar> * 2 ^ nat (- k0) then k0 else k0 - 1);
             t = 52 - k
         in if 0 \<le> t then round_even (a * 2 ^ nat t) d div 2 ^ nat t
            else round_even a (d * 2 ^ nat (- t)) * 2 ^ nat (- t)))"

text \<open>
  The operations of the source on these values: \<open>x * c\<close> and \<open>Math.floor(x / c)\<close> for
  a positive literal \<open>c\<close>, \<open>x + y\<close>, \<open>x - y\<close>, \<open>x < c\<close>, and \<open>x || 0\<close>, which replaces
  \<open>NaN\<close> (and zero) by zero.
\<close>

fun number_times :: "number \<Rightarrow> int \<Rightarrow> number" where
  "number_times (Finite a) c = number_of (a * c)"
| "number_times x c = x"

fun negate :: "number \<Rightarrow> number" where
  "negate (Finite a) = Finite (- a)"
| "negate PlusInfinity = MinusInfinity"
| "negate MinusInfinity = PlusInfinity"
| "negate NaN = NaN"

fun number_plus :: "number \<Rightarrow> number \<Rightarrow> number" where
  "number_plus (Finite a) (Finite b) = number_of (a + b)"
| "number_plus NaN y = NaN"
| "number_plus x NaN = NaN"
| "number_plus PlusInfinity MinusInfinity = NaN"
| "number_plus MinusInfinity PlusInfinity = NaN"
| "number_plus PlusInfinity y = PlusInfinity"
| "number_plus MinusInfinity y = MinusInfinity"
| "number_plus (Finite a) y = y"

definition number_minus :: "number \<Rightarrow> number \<Rightarrow> number" where
  "number_minus x y = number_plus x (negate y)"

fun floor_div :: "number \<Rightarrow> int \<Rightarrow> number" where
  "floor_div (Finite a) d = Finite (floor_quotient a d)"
| "floor_div x d = x"

fun less_than :: "number \<Rightarrow> int \<Rightarrow> bool" where
  "less_than (Finite a) c = (a < c)"
| "less_than MinusInfinity c = True"
| "less_than x c = False"

fun or_zero :: "number \<Rightarrow> number" where
  "or_zero NaN = Finite 0"
| "or_zero x = x"

text \<open>
  \<open>String(x)\<close>. An integer below \<open>2^53\<close> prints as its decimal digits. A larger double
  prints the decimal number with the fewest significant digits that still rounds to
  it, the nearest such number if there are several (as V8 chooses): \<open>shortest x p\<close>
  looks for it among the multiples of \<open>p\<close>, a power of ten, next to \<open>x\<close>, and goes on
  to \<open>p / 10\<close> when neither rounds to \<open>x\<close>. Up to 21 digits the number is printed in
  full, zeros included; a longer one is printed as its first digit, the remaining
  significant digits after a point, and the exponent.
\<close>

function shortest :: "nat \<Rightarrow> nat \<Rightarrow> nat" where
  "shortest x p =
     (let lo = (x div p) * p; hi = lo + p;
          fits_lo = (to_double (int lo) = int x); fits_hi = (to_double (int hi) = int x)
      in if p \<le> 1 then x
         else if fits_lo \<and> fits_hi then
           (if x - lo < hi - x then lo
            else if hi - x < x - lo then hi
            else if even (x div p) then lo else hi)
         else if fits_lo then lo
         else if fits_hi then hi
         else shortest x (p div 10))"
  by pat_completeness auto
termination
  by (relation "measure (\<lambda>(x, p). p)") auto

declare shortest.simps [simp del]

definition strip_zeros :: "string \<Rightarrow> string" where
  "strip_zeros t = rev (dropWhile (\<lambda>c. c = CHR ''0'') (rev t))"

definition digits_text :: "nat \<Rightarrow> string" where
  "digits_text x =
     (if x < 2 ^ 53 then show_nat x
      else
        (let t = show_nat (shortest x (10 ^ (length (show_nat x) - 1)));
             s = strip_zeros t
         in if length t \<le> 21 then t
            else [hd s] @ (if length s > 1 then ''.'' @ tl s else []) @ ''e+'' @
                 show_nat (length t - 1)))"

fun number_text :: "number \<Rightarrow> string" where
  "number_text NaN = ''NaN''"
| "number_text PlusInfinity = ''Infinity''"
| "number_text MinusInfinity = ''-Infinity''"
| "number_text (Finite n) =
     (if n < 0 then CHR ''-'' # digits_text (nat (- n)) else digits_text (nat n))"

text \<open>
  \<open>parseInt(s, 10)\<close> as a number: the integer that \<open>parseInt10\<close> reads becomes the
  double nearest to it, and a text without digits gives \<open>NaN\<close>.
\<close>

definition parseInt :: "string \<Rightarrow> number" where
  "parseInt s = (case parseInt10 s of None \<Rightarrow> NaN | Some v \<Rightarrow> number_of v)"

subsection \<open>Time: \<open>strToSec\<close> and \<open>secToStr\<close>\<close>

text \<open>\<open>hms.split(':')\<close>: the pieces between the colons; an empty string has one piece.\<close>

fun split_on :: "char \<Rightarrow> string \<Rightarrow> string list" where
  "split_on sep [] = [[]]"
| "split_on sep (c # cs) =
     (if c = sep then [] # split_on sep cs
      else (case split_on sep cs of [] \<Rightarrow> [[c]] | p # ps \<Rightarrow> (c # p) # ps))"

text \<open>
  \<open>let [h, m, s] = hms.split(':')\<close> followed by \<open>parseInt(h, 10) || 0\<close>: a piece
  that is missing is \<open>undefined\<close>, whose text has no digit, so it parses to \<open>NaN\<close>
  like any other piece without digits, and \<open>NaN || 0\<close> is \<open>0\<close>.
\<close>

definition component :: "string list \<Rightarrow> nat \<Rightarrow> number" where
  "component parts i =
     or_zero (if i < length parts then parseInt (parts ! i) else parseInt ''undefined'')"

definition strToSec :: "string \<Rightarrow> number" where
  "strToSec hms =
     (let parts = split_on (CHR '':'') hms;
          h = component parts 0;
          m = component parts 1;
          s = component parts 2
      in number_plus (number_plus (number_times h 3600) (number_times m 60)) s)"

text \<open>\<open>if (h < 10) h = '0' + h\<close>, then the number or the string is printed.\<close>

definition zero_pad :: "number \<Rightarrow> string" where
  "zero_pad x = (if less_than x 10 then CHR ''0'' # number_text x else number_text x)"

text \<open>
  \<open>secToStr\<close> first runs \<open>parseInt\<close> over the text of its argument. When the parse
  fails, every part is \<open>NaN\<close>.
\<close>

definition secToStr :: "number \<Rightarrow> string" where
  "secToStr sec0 =
     (let sec = parseInt (number_text sec0);
          h = floor_div sec 3600;
          m = floor_div (number_minus sec (number_times h 3600)) 60;
          s = number_minus (number_minus sec (number_times h 3600)) (number_times m 60)
      in zero_pad h @ '':'' @ zero_pad m @ '':'' @ zero_pad s)"

subsection \<open>Strings that must start with a prefix\<close>

text \<open>
  lodash's \<open>startsWith(string, target, position)\<close> clamps the position into the string
  and compares the slice of the target's length that starts there.
\<close>

definition startsWith :: "string \<Rightarrow> string \<Rightarrow> int \<Rightarrow> bool" where
  "startsWith str target position =
     (let p = nat (max 0 (min position (int (length str))))
      in take (length target) (drop p str) = target)"

text \<open>
  \<open>str.substr(0, position) + target + str.substr(position)\<close>. A length below zero
  gives the empty string; a start below zero counts from the end of the string.
\<close>

definition insertStr :: "string \<Rightarrow> string \<Rightarrow> int \<Rightarrow> string" where
  "insertStr str target position =
     take (nat position) str @ target @
     (if position < 0 then drop (nat (max 0 (int (length str) + position))) str
      else drop (nat position) str)"

text \<open>An argument left out is \<open>None\<close>; the defaults are \<open>str = ''\<close> and \<open>position = 0\<close>.\<close>

definition ensureStartsWith :: "string option \<Rightarrow> string \<Rightarrow> int option \<Rightarrow> string" where
  "ensureStartsWith str_arg target position_arg =
     (let str = (case str_arg of None \<Rightarrow> [] | Some s \<Rightarrow> s);
          position = (case position_arg of None \<Rightarrow> 0 | Some p \<Rightarrow> p)
      in if startsWith str target position then str
         else insertStr str target position)"

subsection \<open>Byte counts: \<open>toByteUnits\<close>\<close>

text \<open>The table \<open>def\<close> of the source: a threshold and the unit that starts there.\<close>

definition def_units :: "(int \<times> string) list" where
  "def_units =
     [(1, ''byte''),
      (1024, ''KB''),
      (1024 * 1024, ''MB''),
      (1024 * 1024 * 1024, ''GB''),
      (1024 * 1024 * 1024 * 1024, ''TB'')]"

text \<open>\<open>xs[k]\<close> for any integer \<open>k\<close>: \<open>undefined\<close> (here \<open>None\<close>) outside the array.\<close>

definition at_index :: "'a list \<Rightarrow> int \<Rightarrow> 'a option" where
  "at_index xs k = (if 0 \<le> k \<and> k < int (length xs) then Some (xs ! nat k) else None)"

text \<open>
  \<open>(b / d).toFixed(2)\<close> for \<open>0 \<le> b\<close> and a divisor \<open>d\<close> that is a power of two. The
  quotient is then exact in binary floating point, and \<open>toFixed\<close> picks the integer
  \<open>n\<close> with \<open>n / 100\<close> nearest to it, the larger one on a tie: \<open>n\<close> is the floor of
  \<open>100 * b / d + 1/2\<close>. It prints \<open>n\<close> with a point before its last two digits.
\<close>

definition toFixed2 :: "int \<Rightarrow> int \<Rightarrow> string" where
  "toFixed2 b d =
     (let n = (200 * b + d) div (2 * d)
      in show_int (n div 100) @ ''.'' @
         [digit_char (nat ((n mod 100) div 10)), digit_char (nat ((n mod 100) mod 10))])"

text \<open>
  The \<open>for\<close> loop over \<open>i\<close>, from the index it is at. It returns inside the loop when
  \<open>b < def[i][0] && def[i - 1]\<close>; \<open>None\<close> means the loop ran to its end.
\<close>

function units_loop :: "int \<Rightarrow> nat \<Rightarrow> string option" where
  "units_loop b i =
     (if i < length def_units then
        (case at_index def_units (int i - 1) of
           Some prev \<Rightarrow>
             if b < fst (def_units ! i)
             then Some (toFixed2 b (fst prev) @ '' '' @ snd prev)
             else units_loop b (i + 1)
         | None \<Rightarrow> units_loop b (i + 1))
      else None)"
  by pat_completeness auto
termination
  by (relation "measure (\<lambda>(b, i). length def_units - i)") auto

declare units_loop.simps [simp del]

text \<open>
  \<open>b = Math.abs(parseInt(b, 10))\<close>, the loop, and the last line of the function. A
  parse that fails would leave \<open>NaN\<close>, below no threshold and not above one.
\<close>

definition toByteUnits :: "int \<Rightarrow> string" where
  "toByteUnits b0 =
     (case parseInt10 (show_int b0) of
        None \<Rightarrow> ''NaN byte''
      | Some v \<Rightarrow>
          (let b = \<bar>v\<bar> in
           case units_loop b 0 of
             Some r \<Rightarrow> r
           | None \<Rightarrow> show_int b @ '' byte'' @ (if b > 1 then ''s'' else '''')))"

subsection \<open>JavaScript values\<close>

text \<open>
  The values the remaining functions receive: the primitives, arrays and plain objects.
  An object is the list of its own enumerable properties in the order \<open>for ... in\<close>
  visits them; a key is looked up with \<open>map_of\<close>. Values are trees: no two places
  share an object. Functions, symbols and getters are not values of the model, and a
  property is read among the value's own ones. Where a member inherited from a
  built-in prototype would make a difference to a function below (a key named like a
  member of \<open>Object.prototype\<close>, say), that function answers \<open>Unmodelled\<close> instead
  of guessing.
\<close>

datatype error = TypeError | RangeError | SyntaxError | PlainError | Unmodelled

datatype jsval =
    Undefined
  | Null
  | Bool bool
  | Num int
  | Str string
  | Arr "jsval list"
  | Obj "(string \<times> jsval) list"

fun typeof :: "jsval \<Rightarrow> string" where
  "typeof Undefined = ''undefined''"
| "typeof Null = ''object''"
| "typeof (Bool b) = ''boolean''"
| "typeof (Num n) = ''number''"
| "typeof (Str s) = ''string''"
| "typeof (Arr xs) = ''object''"
| "typeof (Obj kvs) = ''object''"

fun truthy :: "jsval \<Rightarrow> bool" where
  "truthy Undefined = False"
| "truthy Null = False"
| "truthy (Bool b) = b"
| "truthy (Num n) = (n \<noteq> 0)"
| "truthy (Str s) = (s \<noteq> [])"
| "truthy (Arr xs) = True"
| "truthy (Obj kvs) = True"

text \<open>\<open>parts.join(sep)\<close> on strings.\<close>

fun join :: "string \<Rightarrow> string list \<Rightarrow> string" where
  "join sep [] = []"
| "join sep [x] = x"
| "join sep (x # y # ys) = x @ sep @ join sep (y # ys)"

text \<open>
  \<open>String(v)\<close>, also what \<open>'' + v\<close> and a template literal do. An array joins the
  texts of its elements with commas, \<open>undefined\<close> and \<open>null\<close> printing as nothing. A
  plain object prints as \<open>[object Object]\<close>, unless it has a property of its own named
  \<open>toString\<close>: that one is no function here, and the conversion throws.
\<close>

fun to_string :: "jsval \<Rightarrow> error + string"
  and elems_text :: "jsval list \<Rightarrow> error + string list" where
  "to_string Undefined = Inr ''undefined''"
| "to_string Null = Inr ''null''"
| "to_string (Bool b) = Inr (if b then ''true'' else ''false'')"
| "to_string (Num n) = Inr (number_text (Finite n))"
| "to_string (Str s) = Inr s"
| "to_string (Arr xs) =
     (case elems_text xs of Inl e \<Rightarrow> Inl e | Inr ts \<Rightarrow> Inr (join '','' ts))"
| "to_string (Obj kvs) =
     (if ''toString'' \<in> set (map fst kvs) then Inl TypeError else Inr ''[object Object]'')"
| "elems_text [] = Inr []"
| "elems_text (x # xs) =
     (case (if x = Undefined \<or> x = Null then Inr [] else to_string x) of
        Inl e \<Rightarrow> Inl e
      | Inr t \<Rightarrow> (case elems_text xs of Inl e \<Rightarrow> Inl e | Inr ts \<Rightarrow> Inr (t # ts)))"

text \<open>An array index as a property name: decimal digits without a leading zero.\<close>

definition index_of :: "string \<Rightarrow> nat option" where
  "index_of k =
     (if k \<noteq> [] \<and> list_all is_digit k \<and> show_nat (digits_value k) = k
      then Some (digits_value k) else None)"

text \<open>
  \<open>v[k]\<close>. Reading a property of \<open>undefined\<close> or \<open>null\<close> throws a \<open>TypeError\<close>; a
  property that is missing reads as \<open>undefined\<close>. Strings and arrays have their
  indices and \<open>length\<close>.
\<close>

fun get_prop :: "jsval \<Rightarrow> string \<Rightarrow> error + jsval" where
  "get_prop Undefined k = Inl TypeError"
| "get_prop Null k = Inl TypeError"
| "get_prop (Bool b) k = Inr Undefined"
| "get_prop (Num n) k = Inr Undefined"
| "get_prop (Str s) k =
     (if k = ''length'' then Inr (Num (int (length s)))
      else (case index_of k of
              Some i \<Rightarrow> if i < length s then Inr (Str [s ! i]) else Inr Undefined
            | None \<Rightarrow> Inr Undefined))"
| "get_prop (Arr xs) k =
     (if k = ''length'' then Inr (Num (int (length xs)))
      else (case index_of k of
              Some i \<Rightarrow> if i < length xs then Inr (xs ! i) else Inr Undefined
            | None \<Rightarrow> Inr Undefined))"
| "get_prop (Obj kvs) k =
     (case map_of kvs k of Some v \<Rightarrow> Inr v | None \<Rightarrow> Inr Undefined)"

text \<open>
  \<open>t[k] = v\<close> in strict mode (the file starts with \<open>'use strict'\<close>), returning the
  updated \<open>t\<close>. An object replaces the property or gains it at the end (JavaScript
  lists keys that look like array indices first; the order of the keys plays no part
  in the properties below, which read values through \<open>get_prop\<close>). An array
  takes an index inside it or the next free one; a write that would leave holes, add a
  named property or set \<open>length\<close> is outside the model. A primitive, \<open>undefined\<close> and
  \<open>null\<close> take no property: \<open>TypeError\<close>.
\<close>

fun set_key :: "string \<Rightarrow> jsval \<Rightarrow> (string \<times> jsval) list \<Rightarrow> (string \<times> jsval) list" where
  "set_key k v [] = [(k, v)]"
| "set_key k v ((k', v') # kvs) =
     (if k' = k then (k, v) # kvs else (k', v') # set_key k v kvs)"

fun put_prop :: "jsval \<Rightarrow> string \<Rightarrow> jsval \<Rightarrow> error + jsval" where
  "put_prop (Obj kvs) k v = Inr (Obj (set_key k v kvs))"
| "put_prop (Arr xs) k v =
     (case index_of k of
        Some i \<Rightarrow>
          if i < length xs then Inr (Arr (xs[i := v]))
          else if i = length xs then Inr (Arr (xs @ [v]))
          else Inl Unmodelled
      | None \<Rightarrow> Inl Unmodelled)"
| "put_prop t k v = Inl TypeError"

subsection \<open>\<open>mergeRecursive\<close>\<close>

text \<open>
  The body of the inner loop for one key \<open>p\<close> with the source's value \<open>v\<close>:
  \<^verbatim>\<open>
    if (target[p] && typeof target[p] === 'object') {
      target[p] = _.mergeRecursive(target[p], arguments[i][p]);
    } else {
      target[p] = arguments[i][p];
    }
  \<close>
  The recursive call is the parameter \<open>rec\<close>. \<open>target['__proto__']\<close> is the prototype,
  which the model does not have. Any other inherited name reads as a method, and a
  function fails the test just as \<open>undefined\<close> does, so reading \<open>undefined\<close> there
  takes the same branch.
\<close>

definition merge_step ::
  "(jsval \<Rightarrow> jsval \<Rightarrow> error + jsval) \<Rightarrow> jsval \<Rightarrow> string \<Rightarrow> jsval \<Rightarrow> error + jsval" where
  "merge_step rec target p v =
     (if p = ''__proto__'' then Inl Unmodelled
      else (case get_prop target p of
              Inl e \<Rightarrow> Inl e
            | Inr cur \<Rightarrow>
                if truthy cur \<and> typeof cur = ''object''
                then (case rec cur v of Inl e \<Rightarrow> Inl e | Inr m \<Rightarrow> put_prop target p m)
                else put_prop target p v))"

lemma merge_step_cong [fundef_cong]:
  assumes "target = target'" "p = p'" "v = v'"
    and "\<And>cur. get_prop target' p' = Inr cur \<Longrightarrow> truthy cur \<Longrightarrow> typeof cur = ''object''
           \<Longrightarrow> rec cur v' = rec' cur v'"
  shows "merge_step rec target p v = merge_step rec' target' p' v'"
  using assms by (auto simp: merge_step_def split: sum.splits)





subsection \<open>Regular expressions\<close>

text \<open>
  The expressions of the source are sequences of one-character atoms, each with a
  repeat count: a literal, the dot, the class \<open>[a-z0-9]\<close> and \<open>\w\<close>. \<open>Piece a lo hi\<close>
  is the atom \<open>a\<close> repeated \<open>lo\<close> to \<open>hi\<close> times (\<open>None\<close>: no upper bound), greedily.
\<close>

definition is_lower :: "char \<Rightarrow> bool" where
  "is_lower c = (97 \<le> (of_char c :: nat) \<and> (of_char c :: nat) \<le> 122)"

definition is_upper :: "char \<Rightarrow> bool" where
  "is_upper c = (65 \<le> (of_char c :: nat) \<and> (of_char c :: nat) \<le> 90)"

datatype atom = Lit char | AnyChar | Alnum | WordChar

fun atom_ok :: "atom \<Rightarrow> char \<Rightarrow> bool" where
  "atom_ok (Lit c) x = (x = c)"
| "atom_ok AnyChar x = (x \<noteq> CHR 0x0A \<and> x \<noteq> CHR 0x0D)"
| "atom_ok Alnum x = (is_lower x \<or> is_digit x)"
| "atom_ok WordChar x = (is_lower x \<or> is_upper x \<or> is_digit x \<or> x = CHR ''_'')"

datatype piece = Piece atom nat "nat option"

fun greedy :: "piece \<Rightarrow> string \<Rightarrow> nat" where
  "greedy (Piece a lo hi) s =
     (let n = length (takeWhile (atom_ok a) s)
      in case hi of None \<Rightarrow> n | Some h \<Rightarrow> min n h)"

fun least :: "piece \<Rightarrow> nat" where
  "least (Piece a lo hi) = lo"

text \<open>
  A match at the start of \<open>s\<close>, as the backtracking matcher finds it: each piece first
  takes all it can and gives characters back one at a time while the rest of the
  expression fails. The result lists how many characters each piece took.
\<close>

fun match_here :: "piece list \<Rightarrow> string \<Rightarrow> nat list option"
  and try_count :: "piece \<Rightarrow> piece list \<Rightarrow> string \<Rightarrow> nat \<Rightarrow> nat list option" where
  "match_here [] s = Some []"
| "match_here (p # ps) s = try_count p ps s (greedy p s)"
| "try_count p ps s k =
     (if k < least p then None
      else (case match_here ps (drop k s) of
              Some ks \<Rightarrow> Some (k # ks)
            | None \<Rightarrow> (case k of 0 \<Rightarrow> None | Suc j \<Rightarrow> try_count p ps s j)))"

declare try_count.simps [simp del]

text \<open>\<open>s.search(rx)\<close>: the index of the first match, or \<open>-1\<close>.\<close>

fun search_at :: "piece list \<Rightarrow> string \<Rightarrow> nat \<Rightarrow> int" where
  "search_at rx [] i = (case match_here rx [] of Some ks \<Rightarrow> int i | None \<Rightarrow> - 1)"
| "search_at rx (c # cs) i =
     (case match_here rx (c # cs) of Some ks \<Rightarrow> int i | None \<Rightarrow> search_at rx cs (Suc i))"

definition search :: "piece list \<Rightarrow> string \<Rightarrow> int" where
  "search rx s = search_at rx s 0"

text \<open>
  A global expression run over a string, as \<open>match\<close> and \<open>replace\<close> do with the \<open>g\<close>
  flag: the matches from left to right, none overlapping, and the characters between
  them. After an empty match the scan moves on by one character.
\<close>

datatype segment = Skip char | Match string "nat list"

function scan :: "piece list \<Rightarrow> string \<Rightarrow> segment list" where
  "scan rx [] = (case match_here rx [] of Some ks \<Rightarrow> [Match [] ks] | None \<Rightarrow> [])"
| "scan rx (c # cs) =
     (case match_here rx (c # cs) of
        Some ks \<Rightarrow>
          (case sum_list ks of
             0 \<Rightarrow> Match [] ks # Skip c # scan rx cs
           | Suc n \<Rightarrow> Match (take (Suc n) (c # cs)) ks # scan rx (drop n cs))
      | None \<Rightarrow> Skip c # scan rx cs)"
  by pat_completeness auto
termination
  by (relation "measure (\<lambda>(rx, s). length s)") auto

fun matched :: "segment list \<Rightarrow> string list" where
  "matched [] = []"
| "matched (Skip c # segs) = matched segs"
| "matched (Match t ks # segs) = t # matched segs"

text \<open>lodash's \<open>words(s, rx)\<close> is \<open>s.match(rx) || []\<close>: the texts of the matches.\<close>

definition match_all :: "string \<Rightarrow> piece list \<Rightarrow> string list" where
  "match_all s rx = matched (scan rx s)"

text \<open>
  \<open>new RegExp(src)\<close> for the sources the library can build: characters, the dot, the
  class \<open>[a-z0-9]\<close>, and a count in braces after an atom. \<open>braces t\<close> reads \<open>n}\<close>,
  \<open>n,}\<close> or \<open>n,m}\<close> at the start of \<open>t\<close> and says how long it was. Braces that hold
  anything else are ordinary characters (so \<open>{,5}\<close> is the five characters it is
  written with); a count with nothing to repeat, or with \<open>m < n\<close>, is a
  \<open>SyntaxError\<close>. Every other operator is outside the model.
\<close>

definition braces :: "string \<Rightarrow> (nat \<times> nat option \<times> nat) option" where
  "braces t =
     (let d1 = takeWhile is_digit t; r1 = dropWhile is_digit t in
      if d1 = [] then None
      else (case r1 of
              [] \<Rightarrow> None
            | c # r2 \<Rightarrow>
                if c = CHR ''}'' then Some (digits_value d1, Some (digits_value d1), length d1 + 1)
                else if c = CHR '','' then
                  (let d2 = takeWhile is_digit r2; r3 = dropWhile is_digit r2 in
                   case r3 of
                     [] \<Rightarrow> None
                   | c' # r4 \<Rightarrow>
                       if c' = CHR ''}''
                       then Some (digits_value d1,
                                  if d2 = [] then None else Some (digits_value d2),
                                  length d1 + 1 + length d2 + 1)
                       else None)
                else None))"

definition rx_meta :: "char \<Rightarrow> bool" where
  "rx_meta c = (c \<in> set ''^$.*+?()[|'' \<or> c = CHR 0x5C)"

text \<open>
  The atom at the head of the source \<open>c # cs\<close>, with the number of characters of
  \<open>cs\<close> that belong to it.
\<close>

definition atom_at :: "char \<Rightarrow> string \<Rightarrow> error + (atom \<times> nat)" where
  "atom_at c cs =
     (if take 8 (c # cs) = ''[a-z0-9]'' then Inr (Alnum, 7)
      else if c = CHR ''.'' then Inr (AnyChar, 0)
      else if rx_meta c then Inl Unmodelled
      else if c = CHR ''{'' \<and> braces cs \<noteq> None then Inl SyntaxError
      else Inr (Lit c, 0))"

text \<open>
  The repeat count written after an atom, with the number of characters it is
  written with; an atom without one stands once.
\<close>

definition count_at :: "string \<Rightarrow> error + (nat \<times> nat option \<times> nat)" where
  "count_at rest =
     (case rest of
        [] \<Rightarrow> Inr (1, Some 1, 0)
      | q # qs \<Rightarrow>
          (case (if q = CHR ''{'' then braces qs else None) of
             Some (lo, hi, len) \<Rightarrow>
               (case hi of
                  Some h \<Rightarrow> if h < lo then Inl SyntaxError else Inr (lo, hi, Suc len)
                | None \<Rightarrow> Inr (lo, hi, Suc len))
           | None \<Rightarrow>
               if q = CHR ''*'' \<or> q = CHR ''+'' \<or> q = CHR ''?'' then Inl Unmodelled
               else Inr (1, Some 1, 0)))"

fun regexp :: "string \<Rightarrow> error + piece list" where
  "regexp [] = Inr []"
| "regexp (c # cs) =
     (case atom_at c cs of
        Inl e \<Rightarrow> Inl e
      | Inr (a, n) \<Rightarrow>
          (case count_at (drop n cs) of
             Inl e \<Rightarrow> Inl e
           | Inr (lo, hi, m) \<Rightarrow>
               (case regexp (drop (n + m) cs) of
                  Inl e \<Rightarrow> Inl e
                | Inr ps \<Rightarrow> Inr (Piece a lo hi # ps))))"

subsection \<open>Lower case and \<open>deburr\<close>\<close>

definition to_lower :: "char \<Rightarrow> char" where
  "to_lower c =
     (case map_of (zip ''ABCDEFGHIJKLMNOPQRSTUVWXYZ'' ''abcdefghijklmnopqrstuvwxyz'') c of
        Some l \<Rightarrow> l
      | None \<Rightarrow> c)"

definition toLowerCase :: "string \<Rightarrow> string" where
  "toLowerCase s = map to_lower s"

text \<open>
  lodash's \<open>deburr\<close> rewrites the letters of Latin-1 Supplement and Latin Extended-A
  and drops combining marks. None of them is an ASCII character, so on the text of
  this model it changes nothing.
\<close>

definition deburr :: "string \<Rightarrow> string" where
  "deburr s = s"

subsection \<open>\<open>slugify\<close>\<close>

text \<open>\<open>rxSlugWords\<close> is \<open>/[a-z0-9]{1,}/g\<close>.\<close>

definition rxSlugWords :: "piece list" where
  "rxSlugWords = [Piece Alnum 1 None]"

text \<open>The chain of \<open>if\<close>s that picks \<open>rx\<close>; \<open>minArg\<close> and \<open>maxArg\<close> are \<open>min\<close> and \<open>max\<close>.\<close>

definition slug_pattern :: "jsval \<Rightarrow> jsval \<Rightarrow> error + piece list" where
  "slug_pattern minArg maxArg =
     (if \<not> truthy minArg \<and> \<not> truthy maxArg then Inr rxSlugWords
      else if truthy minArg \<and> truthy maxArg then
        (case to_string minArg of
           Inl e \<Rightarrow> Inl e
         | Inr a \<Rightarrow>
             (case to_string maxArg of
                Inl e \<Rightarrow> Inl e
              | Inr b \<Rightarrow> regexp (''[a-z0-9]{'' @ a @ '','' @ b @ ''}'')))
      else if truthy minArg \<and> \<not> truthy maxArg then
        (case to_string minArg of
           Inl e \<Rightarrow> Inl e
         | Inr a \<Rightarrow> regexp (''[a-z0-9]{'' @ a @ '',}''))
      else if minArg = Null \<and> truthy maxArg then
        (case to_string maxArg of
           Inl e \<Rightarrow> Inl e
         | Inr b \<Rightarrow> regexp (''[a-z0-9]{,'' @ b @ ''}''))
      else Inl RangeError)"

definition slugify :: "string \<Rightarrow> jsval \<Rightarrow> jsval \<Rightarrow> error + string" where
  "slugify str minArg maxArg =
     (if str \<noteq> [] then
        (case slug_pattern minArg maxArg of
           Inl e \<Rightarrow> Inl e
         | Inr rx \<Rightarrow> Inr (join ''-'' (match_all (deburr (toLowerCase str)) rx)))
      else Inr [])"

subsection \<open>\<open>checkSubject\<close>\<close>

text \<open>
  Both arguments go through \<open>String\<close>. \<open>search\<close> is given a string, which it turns
  into a regular expression with \<open>new RegExp\<close>.
\<close>

definition checkSubject :: "jsval \<Rightarrow> jsval \<Rightarrow> error + bool" where
  "checkSubject subject0 input0 =
     (case to_string subject0 of
        Inl e \<Rightarrow> Inl e
      | Inr subject \<Rightarrow>
          (case to_string input0 of
             Inl e \<Rightarrow> Inl e
           | Inr input \<Rightarrow>
               if subject = input then Inr True
               else if length input = 0 then Inr False
               else (case regexp (toLowerCase input) of
                       Inl e \<Rightarrow> Inl e
                     | Inr rx \<Rightarrow> Inr (search rx (toLowerCase subject) \<noteq> - 1))))"

subsection \<open>\<open>placeholder\<close>\<close>

text \<open>\<open>rxPlaceholder\<close> is \<open>/\{(\w+)\}/g\<close>; its group is the second piece.\<close>

definition rxPlaceholder :: "piece list" where
  "rxPlaceholder =
     [Piece (Lit (CHR ''{'')) 1 (Some 1), Piece WordChar 1 None, Piece (Lit (CHR ''}'')) 1 (Some 1)]"

fun group1 :: "string \<Rightarrow> nat list \<Rightarrow> string" where
  "group1 t [a, b, c] = take b (drop a t)"
| "group1 t ks = []"

text \<open>
  The callback \<open>(match, p) => params[p] || p\<close>, whose result \<open>replace\<close> turns into a
  string. \<open>params[p]\<close> reads the property \<open>p\<close> of \<open>params\<close> itself or, when it has none
  of that name, the member a plain object inherits from \<open>Object.prototype\<close>: the
  constructor \<open>Object\<close>, one of ten other functions, or \<open>Object.prototype\<close> itself
  under the name \<open>__proto__\<close>. Each of them is truthy. As a string, a built-in
  function is its source text, which reads \<open>function name() { [native code] }\<close>
  (the spacing is the engine's: this is V8's), and \<open>Object.prototype\<close> is
  \<open>[object Object]\<close>.
\<close>

definition object_prototype_functions :: "string list" where
  "object_prototype_functions =
     [''hasOwnProperty'', ''isPrototypeOf'', ''propertyIsEnumerable'', ''toLocaleString'',
      ''toString'', ''valueOf'', ''__defineGetter__'', ''__defineSetter__'',
      ''__lookupGetter__'', ''__lookupSetter__'']"

definition inherited_text :: "string \<Rightarrow> string option" where
  "inherited_text p =
     (if p = ''__proto__'' then Some ''[object Object]''
      else if p = ''constructor'' then Some ''function Object() { [native code] }''
      else if p \<in> set object_prototype_functions
      then Some (''function '' @ p @ ''() { [native code] }'')
      else None)"

definition param_or_name :: "(string \<times> jsval) list \<Rightarrow> string \<Rightarrow> error + string" where
  "param_or_name kvs p =
     (case map_of kvs p of
        Some v \<Rightarrow> if truthy v then to_string v else Inr p
      | None \<Rightarrow> (case inherited_text p of Some t \<Rightarrow> Inr t | None \<Rightarrow> Inr p))"

text \<open>\<open>replace\<close> with a callback: the text between the matches stays as it is.\<close>

fun replace_segs :: "(string \<Rightarrow> nat list \<Rightarrow> error + string) \<Rightarrow> segment list \<Rightarrow> error + string" where
  "replace_segs f [] = Inr []"
| "replace_segs f (Skip c # segs) =
     (case replace_segs f segs of Inl e \<Rightarrow> Inl e | Inr r \<Rightarrow> Inr (c # r))"
| "replace_segs f (Match t ks # segs) =
     (case f t ks of
        Inl e \<Rightarrow> Inl e
      | Inr x \<Rightarrow> (case replace_segs f segs of Inl e \<Rightarrow> Inl e | Inr r \<Rightarrow> Inr (x @ r)))"

text \<open>
  \<open>params\<close> that are truthy but no plain object (an array, a string, a number) have
  other inherited members; they are outside the model.
\<close>

definition placeholder :: "string \<Rightarrow> jsval \<Rightarrow> error + string" where
  "placeholder str params =
     (if truthy params then
        (case params of
           Obj kvs \<Rightarrow>
             replace_segs (\<lambda>t ks. param_or_name kvs (group1 t ks)) (scan rxPlaceholder str)
         | _ \<Rightarrow> Inl Unmodelled)
      else Inr str)"

subsection \<open>\<open>getErrorMessage\<close>\<close>

text \<open>
  The tests on \<open>res.data\<close> either return a value or fall through to \<open>statusText\<close>;
  the inner \<open>case\<close> yields \<open>Some\<close> of the value returned, or \<open>None\<close> to go on.
\<close>

definition getErrorMessage :: "jsval \<Rightarrow> error + jsval" where
  "getErrorMessage res =
     (if typeof res = ''object'' then
        (case get_prop res ''message'' of
           Inl e \<Rightarrow> Inl e
         | Inr message \<Rightarrow>
             if truthy message then Inr message
             else
               (case get_prop res ''data'' of
                  Inl e \<Rightarrow> Inl e
                | Inr data \<Rightarrow>
                    (case
                       (if truthy data then
                          (case get_prop data ''message'' of
                             Inl e \<Rightarrow> Inl e
                           | Inr dmessage \<Rightarrow>
                               if truthy dmessage then Inr (Some dmessage)
                               else
                                 (case get_prop data ''error'' of
                                    Inl e \<Rightarrow> Inl e
                                  | Inr derror \<Rightarrow>
                                      if typeof derror = ''string'' then Inr (Some derror)
                                      else if typeof derror = ''object'' then
                                        (case get_prop derror ''message'' of
                                           Inl e \<Rightarrow> Inl e
                                         | Inr emessage \<Rightarrow>
                                             if truthy emessage then Inr (Some emessage)
                                             else Inr None)
                                      else Inr None))
                        else Inr None)
                     of
                       Inl e \<Rightarrow> Inl e
                     | Inr (Some found) \<Rightarrow> Inr found
                     | Inr None \<Rightarrow>
                         (case get_prop res ''statusText'' of
                            Inl e \<Rightarrow> Inl e
                          | Inr statusText \<Rightarrow>
                              if truthy statusText then Inr statusText
                              else
                                (case get_prop res ''status'' of
                                   Inl e \<Rightarrow> Inl e
                                 | Inr status \<Rightarrow>
                                     if truthy status then Inr status else Inr res)))))
      else Inr res)"

subsection \<open>Notions the properties are stated with\<close>

text \<open>The characters that mean something in a regular expression.\<close>

definition rx_special :: "char \<Rightarrow> bool" where
  "rx_special c = (c \<in> set ''^$.*+?()[]{}|'' \<or> c = CHR 0x5C)"

text \<open>One literal character, standing once.\<close>

definition lit :: "char \<Rightarrow> piece" where
  "lit c = Piece (Lit c) 1 (Some 1)"

text \<open>A word character, as \<open>\w\<close> has it.\<close>

definition is_word :: "char \<Rightarrow> bool" where
  "is_word c = (is_lower c \<or> is_upper c \<or> is_digit c \<or> c = CHR ''_'')"

text \<open>
  The specification's words: the string is scanned for tokens \<open>{identifier}\<close>, the
  identifier being word characters; each identifier is looked up in \<open>params\<close>; if it
  is found and truthy, the token is replaced by the value coerced to a string,
  otherwise by the identifier's name. \<open>token_text\<close> is the replacement of one token
  in these words. \<open>substitute\<close> walks the string, a token being a brace, the longest
  run of word characters after it (at least one), and a closing brace; \<open>tokens\<close>
  lists the identifiers it meets.
\<close>

definition token_text :: "(string \<times> jsval) list \<Rightarrow> string \<Rightarrow> error + string" where
  "token_text kvs ident =
     (case map_of kvs ident of
        Some v \<Rightarrow> if truthy v then to_string v else Inr ident
      | None \<Rightarrow> Inr ident)"

function substitute :: "(string \<Rightarrow> error + string) \<Rightarrow> string \<Rightarrow> error + string" where
  "substitute f [] = Inr []"
| "substitute f (c # cs) =
     (let ident = takeWhile is_word cs; after = dropWhile is_word cs in
      if c = CHR ''{'' \<and> ident \<noteq> [] \<and> take 1 after = ''}'' then
        (case f ident of
           Inl e \<Rightarrow> Inl e
         | Inr x \<Rightarrow>
             (case substitute f (drop 1 after) of
                Inl e \<Rightarrow> Inl e
              | Inr r \<Rightarrow> Inr (x @ r)))
      else
        (case substitute f cs of Inl e \<Rightarrow> Inl e | Inr r \<Rightarrow> Inr (c # r)))"
  by pat_completeness auto
termination
proof (relation "measure (\<lambda>(f, s). length s)")
  fix f :: "string \<Rightarrow> error + string" and c :: char and cs x xa
  assume "xa = dropWhile is_word cs"
  then have "length (drop 1 xa) \<le> length cs"
    using length_dropWhile_le [of is_word cs] by simp
  then show "((f, drop 1 xa), (f, c # cs)) \<in> measure (\<lambda>(f, s). length s)"
    by simp
qed simp_all

definition substitute_spec :: "(string \<times> jsval) list \<Rightarrow> string \<Rightarrow> error + string" where
  "substitute_spec kvs str = substitute (token_text kvs) str"

function tokens :: "string \<Rightarrow> string list" where
  "tokens [] = []"
| "tokens (c # cs) =
     (let ident = takeWhile is_word cs; after = dropWhile is_word cs in
      if c = CHR ''{'' \<and> ident \<noteq> [] \<and> take 1 after = ''}''
      then ident # tokens (drop 1 after)
      else tokens cs)"
  by pat_completeness auto
termination
proof (relation "measure length")
  fix c :: char and cs x xa
  assume "xa = dropWhile is_word cs"
  then have "length (drop 1 xa) \<le> length cs"
    using length_dropWhile_le [of is_word cs] by simp
  then show "(drop 1 xa, c # cs) \<in> measure length"
    by simp
qed simp_all

text \<open>The middle piece of \<open>rxPlaceholder\<close>.\<close>

definition wordp :: piece where
  "wordp = Piece WordChar 1 None"

text \<open>
  The specification's priority chain for \<open>getErrorMessage\<close>: \<open>message\<close>, then
  \<open>data.message\<close>, then \<open>data.error\<close> if it is a string, then \<open>data.error.message\<close>
  if \<open>data.error\<close> is an object, then \<open>statusText\<close>, then \<open>status\<close>; the first one
  that resolves is the answer. \<open>field\<close> reads a property where there may be none.
\<close>

definition field :: "jsval \<Rightarrow> string \<Rightarrow> jsval" where
  "field v k = (case get_prop v k of Inl e \<Rightarrow> Undefined | Inr x \<Rightarrow> x)"

definition message_chain :: "jsval \<Rightarrow> jsval option list" where
  "message_chain res =
     (let data = field res ''data''; derror = field data ''error'' in
      [if truthy (field res ''message'') then Some (field res ''message'') else None,
       if truthy data \<and> truthy (field data ''message'') then Some (field data ''message'') else None,
       if truthy data \<and> typeof derror = ''string'' then Some derror else None,
       if truthy data \<and> typeof derror = ''object'' \<and> truthy (field derror ''message'')
       then Some (field derror ''message'') else None,
       if truthy (field res ''statusText'') then Some (field res ''statusText'') else None,
       if truthy (field res ''status'') then Some (field res ''status'') else None])"

fun first_some :: "'a option list \<Rightarrow> 'a option" where
  "first_some [] = None"
| "first_some (None # xs) = first_some xs"
| "first_some (Some x # xs) = Some x"






section \<open>Properties\<close>

subsection \<open>Decimal text parses back\<close>

lemma digit_char_is_digit: "d < 10 \<Longrightarrow> is_digit (digit_char d)"
proof -
  assume "d < 10"
  then have "d \<in> {0, 1, 2, 3, 4, 5, 6, 7, 8, 9}" by auto
  then show ?thesis by (auto simp: digit_char_def is_digit_def)
qed

lemma digit_val_digit_char: "d < 10 \<Longrightarrow> digit_val (digit_char d) = d"
proof -
  assume "d < 10"
  then have "d \<in> {0, 1, 2, 3, 4, 5, 6, 7, 8, 9}" by auto
  then show ?thesis by (auto simp: digit_char_def digit_val_def)
qed

lemma show_nat_digits: "list_all is_digit (show_nat n)"
proof (induction n rule: show_nat.induct)
  case (1 n)
  show ?case
  proof (cases "n < 10")
    case True
    then show ?thesis by (simp add: show_nat.simps [of n] digit_char_is_digit)
  next
    case False
    with 1 show ?thesis by (simp add: show_nat.simps [of n] digit_char_is_digit)
  qed
qed

lemma show_nat_digit: "n < 10 \<Longrightarrow> show_nat n = [digit_char n]"
  by (simp add: show_nat.simps [of n])

lemma show_nat_not_Nil: "show_nat n \<noteq> []"
  by (simp add: show_nat.simps [of n])

lemma digits_value_snoc: "digits_value (ds @ [c]) = digits_value ds * 10 + digit_val c"
  by (simp add: digits_value_def)

lemma digits_value_show_nat: "digits_value (show_nat n) = n"
proof (induction n rule: show_nat.induct)
  case (1 n)
  show ?case
  proof (cases "n < 10")
    case True
    then show ?thesis
      by (simp add: show_nat.simps [of n] digits_value_def digit_val_digit_char)
  next
    case False
    with 1 show ?thesis
      by (simp add: show_nat.simps [of n] digits_value_snoc digit_val_digit_char)
  qed
qed

lemma digits_value_leading_zero: "digits_value (CHR ''0'' # ds) = digits_value ds"
  by (simp add: digits_value_def digit_val_def)

lemma is_digit_plain:
  "is_digit c \<Longrightarrow> \<not> is_space c \<and> c \<noteq> CHR ''-'' \<and> c \<noteq> CHR ''+'' \<and> c \<noteq> CHR '':''"
  by (auto simp: is_digit_def is_space_def)

lemma parseInt10_digits:
  assumes "list_all is_digit ds" and "ds \<noteq> []"
  shows "parseInt10 ds = Some (int (digits_value ds))"
proof -
  from assms obtain c r where ds: "ds = c # r" by (cases ds) auto
  with assms have c: "is_digit c" by simp
  from assms have tw: "takeWhile is_digit ds = ds"
    by (simp add: list_all_iff)
  from c have "\<not> is_space c" "c \<noteq> CHR ''-''" "c \<noteq> CHR ''+''"
    using is_digit_plain by blast+
  with ds tw show ?thesis
    by (simp add: parseInt10_def)
qed

lemma parseInt10_show_nat: "parseInt10 (show_nat n) = Some (int n)"
  by (simp add: parseInt10_digits show_nat_digits show_nat_not_Nil digits_value_show_nat)

lemma parseInt10_show_int_nonneg: "0 \<le> i \<Longrightarrow> parseInt10 (show_int i) = Some i"
  by (simp add: show_int_def parseInt10_show_nat)

subsection \<open>Splitting at colons\<close>

lemma split_on_not_Nil: "split_on sep cs \<noteq> []"
  by (induction cs) (auto split: list.splits)

lemma split_on_no_sep: "sep \<notin> set cs \<Longrightarrow> split_on sep cs = [cs]"
  by (induction cs) auto

lemma split_on_append: "sep \<notin> set a \<Longrightarrow> split_on sep (a @ sep # rest) = a # split_on sep rest"
  by (induction a) (auto simp: split_on_not_Nil split: list.splits)

lemma digits_no_colon: "list_all is_digit ds \<Longrightarrow> CHR '':'' \<notin> set ds"
  using is_digit_plain by (auto simp: list_all_iff)

lemma split_three:
  assumes "CHR '':'' \<notin> set a" "CHR '':'' \<notin> set b" "CHR '':'' \<notin> set c"
  shows "split_on (CHR '':'') (a @ '':'' @ b @ '':'' @ c) = [a, b, c]"
  using assms by (simp add: split_on_append split_on_no_sep)

subsection \<open>Rounding that does not happen\<close>

lemma bits_0: "bits 0 = 0"
  by (simp add: bits.simps [of 0])

lemma bits_bound: "n < 2 ^ k \<Longrightarrow> bits n \<le> k"
proof (induction k arbitrary: n)
  case 0
  then show ?case by (simp add: bits_0)
next
  case (Suc k)
  show ?case
  proof (cases "n = 0")
    case True
    then show ?thesis by (simp add: bits_0)
  next
    case False
    from Suc.prems have "n div 2 < 2 ^ k" by simp
    then have "bits (n div 2) \<le> k" by (rule Suc.IH)
    with False show ?thesis by (simp add: bits.simps [of n])
  qed
qed

lemma round_even_one: "round_even v 1 = v"
  by (simp add: round_even_def)

lemma to_double_small: "\<bar>v\<bar> < 2 ^ 53 \<Longrightarrow> to_double v = v"
proof -
  assume "\<bar>v\<bar> < 2 ^ 53"
  then have "nat \<bar>v\<bar> < 2 ^ 53" by (simp add: nat_less_iff)
  then have "bits (nat \<bar>v\<bar>) \<le> 53" by (rule bits_bound)
  then show ?thesis by (simp add: to_double_def round_even_one)
qed

lemma number_of_small: "\<bar>v\<bar> < 2 ^ 53 \<Longrightarrow> number_of v = Finite v"
proof -
  assume v: "\<bar>v\<bar> < 2 ^ 53"
  have "(2::int) ^ 53 \<le> 2 ^ 1024" by (rule power_increasing) simp_all
  with v have "v < 2 ^ 1024" "- (2 ^ 1024) < v" by linarith+
  with v show ?thesis by (simp add: number_of_def to_double_small)
qed

lemma round_even_scaled:
  assumes a: "0 \<le> a" and d: "0 < d" and E: "0 < E" and dE: "d < 2 * E"
  shows "round_even (a * E) d div E = a div (d::int)"
proof -
  define c p q r where "c = a div d" and "p = a mod d" and "q = a * E div d" and "r = a * E mod d"
  have a_eq: "a = c * d + p" and p: "p < d"
    using d by (simp_all add: c_def p_def)
  have aE: "a * E = q * d + r" by (simp add: q_def r_def)
  have base: "q div E = c"
  proof -
    have "q div E = a * E div (d * E)"
      using E by (simp add: q_def zdiv_zmult2_eq)
    also have "\<dots> = a div d" using E by simp
    finally show ?thesis by (simp add: c_def)
  qed
  have rnd: "round_even (a * E) d = (if 2 * r > d \<or> (2 * r = d \<and> odd q) then q + 1 else q)"
    by (simp add: round_even_def Let_def q_def r_def)
  show ?thesis
  proof (cases "2 * r > d \<or> (2 * r = d \<and> odd q)")
    case False
    with rnd have "round_even (a * E) d = q" by simp
    with base show ?thesis by (simp add: c_def)
  next
    case True
    then have half: "d \<le> 2 * r" by auto
    have ne: "q mod E \<noteq> E - 1"
    proof
      assume top: "q mod E = E - 1"
      have "q = q div E * E + q mod E" by simp
      with base top have q_eq: "q = c * E + (E - 1)" by simp
      have "(c * d + p) * E = (c * E + (E - 1)) * d + r"
        using aE a_eq q_eq by simp
      then have eq: "(d - p) * E = d - r"
        by (simp add: algebra_simps)
      from p have "1 \<le> d - p" by simp
      then have "1 * E \<le> (d - p) * E" using E by (intro mult_right_mono) simp_all
      with eq have "E \<le> d - r" by simp
      with half dE show False by linarith
    qed
    have "0 \<le> q mod E" "q mod E < E" using E by simp_all
    with ne have lt: "q mod E + 1 < E" by linarith
    have "q + 1 = E * (q div E) + (q mod E + 1)" by simp
    moreover from \<open>0 \<le> q mod E\<close> have "0 \<le> q mod E + 1" by simp
    ultimately have "(q + 1) div E = q div E"
      using lt by (rule int_div_pos_eq)
    moreover from True rnd have "round_even (a * E) d = q + 1" by simp
    ultimately show ?thesis using base by (simp add: c_def)
  qed
qed

lemma floor_quotient_exact:
  assumes a: "0 \<le> a" and d: "0 < d"
    and room: "int (bits (nat a)) + int T \<le> 52 + int (bits (nat d))"
    and dT: "d < 2 * 2 ^ T"
  shows "floor_quotient a d = a div d"
proof (cases "a = 0")
  case True
  then show ?thesis by (simp add: floor_quotient_def)
next
  case False
  define k0 where "k0 = int (bits (nat \<bar>a\<bar>)) - int (bits (nat d))"
  define k where "k = (if d * 2 ^ nat k0 \<le> \<bar>a\<bar> * 2 ^ nat (- k0) then k0 else k0 - 1)"
  have "k \<le> k0" by (simp add: k_def)
  moreover have "k0 + int T \<le> 52" using room a by (simp add: k0_def)
  ultimately have t: "int T \<le> 52 - k" by simp
  then have t0: "0 \<le> 52 - k" by simp
  from t have "T \<le> nat (52 - k)" by simp
  then have "(2::int) ^ T \<le> 2 ^ nat (52 - k)" by (rule power_increasing) simp
  with dT have dE: "d < 2 * 2 ^ nat (52 - k)" by linarith
  have "floor_quotient a d =
          (let t = 52 - k
           in if 0 \<le> t then round_even (a * 2 ^ nat t) d div 2 ^ nat t
              else round_even a (d * 2 ^ nat (- t)) * 2 ^ nat (- t))"
    using False unfolding floor_quotient_def k0_def k_def by (simp only: Let_def if_False)
  also have "\<dots> = round_even (a * 2 ^ nat (52 - k)) d div 2 ^ nat (52 - k)"
    using t0 by (simp only: Let_def if_True)
  also have "\<dots> = a div d"
    using a d _ dE by (rule round_even_scaled) simp
  finally show ?thesis .
qed


lemma bits_Suc_0: "bits (Suc 0) = Suc 0"
  by (simp add: bits.simps [of "Suc 0"] bits_0)

lemma bits_numeral: "bits (numeral w) = Suc (bits (numeral w div 2))"
  by (simp add: bits.simps [of "numeral w"])

lemma bits_3600: "bits 3600 = 12"
  by (simp add: bits_numeral bits_Suc_0)

lemma bits_60: "bits 60 = 6"
  by (simp add: bits_numeral bits_Suc_0)

lemma digits_text_safe: "x < 2 ^ 53 \<Longrightarrow> digits_text x = show_nat x"
  by (simp add: digits_text_def)

lemma number_text_safe: "b < 2 ^ 53 \<Longrightarrow> number_text (Finite (int b)) = show_nat b"
  by (simp add: digits_text_safe)

lemma parseInt_show_nat: "b < 2 ^ 53 \<Longrightarrow> parseInt (show_nat b) = Finite (int b)"
  by (simp add: parseInt_def parseInt10_show_nat number_of_small)

lemma zero_pad_safe:
  assumes "0 \<le> x" "x < 2 ^ 53"
  shows "zero_pad (Finite x) = (if x < 10 then CHR ''0'' # show_nat (nat x) else show_nat (nat x))"
proof -
  from assms have "nat x < 2 ^ 53" by (simp add: nat_less_iff)
  then have "digits_text (nat x) = show_nat (nat x)" by (rule digits_text_safe)
  with assms show ?thesis by (simp add: zero_pad_def)
qed

lemma zero_pad_digits: "0 \<le> x \<Longrightarrow> x < 2 ^ 53 \<Longrightarrow> list_all is_digit (zero_pad (Finite x))"
  by (simp add: zero_pad_safe show_nat_digits is_digit_def)

lemma parseInt_zero_pad:
  assumes "0 \<le> x" "x < 2 ^ 53"
  shows "parseInt (zero_pad (Finite x)) = Finite x"
proof -
  have "parseInt10 (zero_pad (Finite x)) = Some (int (digits_value (zero_pad (Finite x))))"
    using assms
    by (intro parseInt10_digits zero_pad_digits) (simp_all add: zero_pad_safe show_nat_not_Nil)
  moreover from assms have "digits_value (zero_pad (Finite x)) = nat x"
    by (simp add: zero_pad_safe digits_value_leading_zero digits_value_show_nat)
  ultimately show ?thesis using assms by (simp add: parseInt_def number_of_small)
qed

lemma strToSec_parts:
  assumes "0 \<le> h" "0 \<le> m" "0 \<le> s" and sum: "h * 3600 + m * 60 + s < 2 ^ 53"
  shows "strToSec (zero_pad (Finite h) @ '':'' @ zero_pad (Finite m) @ '':'' @ zero_pad (Finite s))
           = Finite (h * 3600 + m * 60 + s)"
proof -
  from assms have h: "h < 2 ^ 53" and m: "m < 2 ^ 53" and s: "s < 2 ^ 53" by linarith+
  have "split_on (CHR '':'')
          (zero_pad (Finite h) @ '':'' @ zero_pad (Finite m) @ '':'' @ zero_pad (Finite s))
        = [zero_pad (Finite h), zero_pad (Finite m), zero_pad (Finite s)]"
    using assms h m s by (intro split_three digits_no_colon zero_pad_digits)
  moreover have "number_times (Finite h) 3600 = Finite (h * 3600)"
    using assms by (simp add: number_of_small)
  moreover have "number_times (Finite m) 60 = Finite (m * 60)"
    using assms by (simp add: number_of_small)
  moreover have "number_plus (Finite (h * 3600)) (Finite (m * 60)) = Finite (h * 3600 + m * 60)"
    using assms by (simp add: number_of_small)
  moreover have "number_plus (Finite (h * 3600 + m * 60)) (Finite s) = Finite (h * 3600 + m * 60 + s)"
    using assms by (simp add: number_of_small)
  ultimately show ?thesis
    using assms h m s by (simp add: strToSec_def component_def parseInt_zero_pad)
qed

lemma secToStr_parts:
  assumes "b < 2 ^ 53"
  shows "secToStr (Finite (int b)) =
           zero_pad (Finite (int b div 3600)) @ '':'' @
           zero_pad (Finite (int b mod 3600 div 60)) @ '':'' @
           zero_pad (Finite (int b mod 60))"
proof -
  let ?b = "int b"
  from assms have b: "?b < 2 ^ 53" "0 \<le> ?b"
    by (simp_all add: nat_less_iff flip: of_nat_less_iff)
  define h where "h = ?b div 3600"
  define r where "r = ?b mod 3600"
  define m where "m = r div 60"
  have h0: "0 \<le> h" "h * 3600 \<le> ?b" by (simp_all add: h_def)
  have r0: "0 \<le> r" "r < 3600" by (simp_all add: r_def)
  have m0: "0 \<le> m" "m * 60 \<le> r" using r0 by (simp_all add: m_def)
  have sec: "parseInt (number_text (Finite ?b)) = Finite ?b"
    by (simp only: number_text_safe [OF assms] parseInt_show_nat [OF assms])
  have "bits (nat ?b) \<le> 53" using assms by (simp add: bits_bound)
  then have "floor_quotient ?b 3600 = ?b div 3600"
    using b by (intro floor_quotient_exact [where T = 11]) (simp_all add: bits_3600)
  then have hq: "floor_div (Finite ?b) 3600 = Finite h" by (simp add: h_def)
  have th: "number_times (Finite h) 3600 = Finite (h * 3600)"
    using h0 b by (simp add: number_of_small)
  have "?b - h * 3600 = r" by (simp add: h_def r_def minus_div_mult_eq_mod)
  then have rem: "number_minus (Finite ?b) (Finite (h * 3600)) = Finite r"
    using r0 by (simp add: number_minus_def number_of_small)
  have "nat r < 2 ^ 12" using r0 by (simp add: nat_less_iff)
  then have "bits (nat r) \<le> 12" by (rule bits_bound)
  then have "floor_quotient r 60 = r div 60"
    using r0 by (intro floor_quotient_exact [where T = 11]) (simp_all add: bits_60)
  then have mq: "floor_div (Finite r) 60 = Finite m" by (simp add: m_def)
  have tm: "number_times (Finite m) 60 = Finite (m * 60)"
    using m0 r0 by (simp add: number_of_small)
  have "r - m * 60 = r mod 60" by (simp add: m_def minus_div_mult_eq_mod)
  also have "\<dots> = ?b mod 60" by (simp add: r_def mod_mod_cancel)
  finally have s: "number_minus (Finite r) (Finite (m * 60)) = Finite (?b mod 60)"
    by (simp add: number_minus_def number_of_small)
  show ?thesis
    unfolding secToStr_def Let_def sec hq th rem mq tm s
    by (simp add: h_def m_def r_def)
qed

subsection \<open>The round trip\<close>

text \<open>
  C7, as amended. For every non-negative integer \<open>b\<close> below \<open>2^53\<close>, formatting \<open>b\<close>
  seconds with \<open>secToStr\<close> (the specification's \<open>secondsToTimeString\<close>) and parsing
  the text back with \<open>strToSec\<close> (\<open>timeStringToSeconds\<close>) yields \<open>b\<close> again.
\<close>

theorem strToSec_secToStr_safe:
  assumes "b < 2 ^ 53"
  shows "strToSec (secToStr (Finite (int b))) = Finite (int b)"
proof -
  let ?b = "int b"
  from assms have b: "?b < 2 ^ 53"
    by (simp add: nat_less_iff flip: of_nat_less_iff)
  have "?b div 3600 * 3600 + ?b mod 3600 div 60 * 60 + ?b mod 60 = ?b"
  proof -
    have "?b mod 3600 mod 60 = ?b mod 60" by (simp add: mod_mod_cancel)
    moreover have "?b mod 3600 div 60 * 60 + ?b mod 3600 mod 60 = ?b mod 3600"
      by (rule div_mult_mod_eq)
    moreover have "?b div 3600 * 3600 + ?b mod 3600 = ?b"
      by (rule div_mult_mod_eq)
    ultimately show ?thesis by linarith
  qed
  moreover have "0 \<le> ?b div 3600" "0 \<le> ?b mod 3600 div 60" "0 \<le> ?b mod 60"
    by (simp_all add: pos_imp_zdiv_nonneg_iff)
  ultimately have "strToSec (zero_pad (Finite (?b div 3600)) @ '':'' @
                     zero_pad (Finite (?b mod 3600 div 60)) @ '':'' @
                     zero_pad (Finite (?b mod 60))) = Finite ?b"
    using strToSec_parts [of "?b div 3600" "?b mod 3600 div 60" "?b mod 60"] b by simp
  then show ?thesis by (simp only: secToStr_parts [OF assms])
qed

lemma secToStr_3725: "secToStr (Finite 3725) = ''01:02:05''"
  using secToStr_parts [of 3725] by (simp add: zero_pad_safe show_nat_digit digit_char_def)

theorem strToSec_secToStr_safe_witness:
  "(3725::nat) < 2 ^ 53 \<and> secToStr (Finite 3725) = ''01:02:05'' \<and>
   strToSec ''01:02:05'' = Finite 3725"
  using strToSec_secToStr_safe [of 3725] by (simp add: secToStr_3725)

subsection \<open>The round trip beyond the digits of a double\<close>

lemma show_nat_numeral:
  "show_nat (numeral w) =
     (if (numeral w :: nat) < 10 then [digit_char (numeral w)]
      else show_nat (numeral w div 10) @ [digit_char (numeral w mod 10)])"
  by (rule show_nat.simps)

lemma show_nat_Suc_0: "show_nat (Suc 0) = ''1''"
  by (simp add: show_nat.simps [of "Suc 0"] digit_char_def)

lemma show_nat_0: "show_nat 0 = ''0''"
  by (simp add: show_nat.simps [of 0] digit_char_def)

lemma number_of_1e21: "number_of 1000000000000000000000 = Finite 1000000000000000000000"
  by (simp add: number_of_def to_double_def round_even_def bits_numeral bits_Suc_0)

lemma to_double_1e21: "to_double 1000000000000000000000 = 1000000000000000000000"
  by (simp add: to_double_def round_even_def bits_numeral bits_Suc_0)

lemma to_double_2e21: "to_double 2000000000000000000000 = 2000000000000000000000"
  by (simp add: to_double_def round_even_def bits_numeral bits_Suc_0)

lemma show_nat_1e21: "show_nat 1000000000000000000000 = ''1000000000000000000000''"
  by (simp add: show_nat_numeral show_nat_Suc_0 digit_char_def)

lemma digits_text_1e21: "digits_text 1000000000000000000000 = ''1e+21''"
proof -
  have len: "length ''1000000000000000000000'' = 22" by simp
  have p: "10 ^ (22 - 1) = (1000000000000000000000::nat)" by simp
  have sh: "shortest 1000000000000000000000 1000000000000000000000 = 1000000000000000000000"
    by (subst shortest.simps) (simp add: to_double_1e21 to_double_2e21)
  have big: "\<not> (1000000000000000000000::nat) < 2 ^ 53" by simp
  have s: "strip_zeros ''1000000000000000000000'' = ''1''" by (simp add: strip_zeros_def)
  have e: "show_nat (22 - 1) = ''21''" by (simp add: show_nat_numeral digit_char_def)
  show ?thesis
    unfolding digits_text_def Let_def
    by (simp only: big if_False show_nat_1e21 len p sh s e) simp
qed

lemma parseInt_1e21: "parseInt (number_text (Finite 1000000000000000000000)) = Finite 1"
  by (simp add: digits_text_1e21 parseInt_def parseInt10_def is_space_def is_digit_def
      digits_value_def digit_val_def number_of_small)

lemma secToStr_1e21: "secToStr (Finite 1000000000000000000000) = ''00:00:01''"
proof -
  have "parseInt (number_text (Finite 1)) = Finite 1"
    using parseInt_show_nat [of 1] number_text_safe [of 1] by simp
  then have "secToStr (Finite 1000000000000000000000) = secToStr (Finite 1)"
    unfolding secToStr_def by (simp only: parseInt_1e21)
  also have "\<dots> = ''00:00:01''"
    using secToStr_parts [of 1] by (simp add: zero_pad_safe show_nat_0 show_nat_Suc_0)
  finally show ?thesis .
qed

lemma strToSec_1: "strToSec ''00:00:01'' = Finite 1"
  using strToSec_parts [of 0 0 1] by (simp add: zero_pad_safe show_nat_0 show_nat_Suc_0)

text \<open>
  C7. The claim: the round trip holds for every non-negative integer \<open>b\<close>. The
  integer \<open>10^21\<close> is a double; \<open>String\<close> prints it as \<open>1e+21\<close>, of which \<open>parseInt\<close>
  reads the digit \<open>1\<close>: \<open>secToStr\<close> answers \<open>00:00:01\<close>, and \<open>strToSec\<close> turns that
  into \<open>1\<close>.
\<close>

theorem strToSec_secToStr_1e21:
  "number_of 1000000000000000000000 = Finite 1000000000000000000000 \<and>
   secToStr (Finite 1000000000000000000000) = ''00:00:01'' \<and>
   strToSec (secToStr (Finite 1000000000000000000000)) = Finite 1 \<and>
   strToSec (secToStr (Finite 1000000000000000000000)) \<noteq> Finite 1000000000000000000000"
  by (simp add: number_of_1e21 secToStr_1e21 strToSec_1)

subsection \<open>\<open>ensureStartsWith\<close> applied twice\<close>

text \<open>
  C8. For every string \<open>s\<close>, \<open>ensureStartsWith\<close> with target \<open>"x"\<close> and the default
  position is idempotent: applying it to its own result changes nothing.
\<close>

theorem ensureStartsWith_idem:
  "ensureStartsWith (Some (ensureStartsWith (Some s) ''x'' None)) ''x'' None
     = ensureStartsWith (Some s) ''x'' None"
  by (cases s) (auto simp: ensureStartsWith_def startsWith_def insertStr_def Let_def)

theorem ensureStartsWith_idem_witness:
  "ensureStartsWith (Some ''abc'') ''x'' None = ''xabc'' \<and>
   ensureStartsWith (Some ''xabc'') ''x'' None = ''xabc''"
proof -
  have a: "ensureStartsWith (Some ''abc'') ''x'' None = ''xabc''"
    by (simp add: ensureStartsWith_def startsWith_def insertStr_def)
  from ensureStartsWith_idem [of "''abc''"] a show ?thesis by simp
qed

subsection \<open>\<open>toByteUnits\<close> below 1024\<close>

lemma units_loop_unfold:
  "units_loop b i =
     (if i < 5 then
        (if 0 < i \<and> b < fst (def_units ! i)
         then Some (toFixed2 b (fst (def_units ! (i - 1))) @ '' '' @ snd (def_units ! (i - 1)))
         else units_loop b (Suc i))
      else None)"
proof -
  have len: "length def_units = 5" by (simp add: def_units_def)
  have idx: "0 < i \<Longrightarrow> nat (int i - 1) = i - 1" by simp
  show ?thesis
    by (subst units_loop.simps) (auto simp: len at_index_def idx)
qed

lemma units_loop_small:
  assumes "0 \<le> b" "b < 1024"
  shows "units_loop b 0 = Some (show_int b @ ''.00 byte'')"
proof -
  have "units_loop b 0 = units_loop b (Suc 0)"
    by (simp add: units_loop_unfold [of b 0])
  also have "\<dots> = Some (toFixed2 b 1 @ '' byte'')"
    using assms by (simp add: units_loop_unfold [of b "Suc 0"] def_units_def)
  also have "toFixed2 b 1 = show_int b @ ''.00''"
  proof -
    have "(200 * b + 1) div 2 = 100 * b" by presburger
    then show ?thesis by (simp add: toFixed2_def digit_char_def)
  qed
  finally show ?thesis by simp
qed

lemma toByteUnits_1536: "toByteUnits 1536 = ''1.50 KB''"
proof -
  have "units_loop 1536 0 = units_loop 1536 (Suc 0)"
    by (simp add: units_loop_unfold [of _ 0])
  also have "\<dots> = units_loop 1536 (Suc (Suc 0))"
    by (simp add: units_loop_unfold [of _ "Suc 0"] def_units_def)
  also have "\<dots> = Some (toFixed2 1536 1024 @ '' KB'')"
    by (simp add: units_loop_unfold [of _ "Suc (Suc 0)"] def_units_def)
  also have "toFixed2 1536 1024 = ''1.50''"
    by (simp add: toFixed2_def show_int_def show_nat_digit digit_char_def)
  finally show ?thesis
    by (simp add: toByteUnits_def parseInt10_show_int_nonneg)
qed

lemma show_int_512: "show_int 512 = ''512''"
  by (simp add: show_int_def show_nat.simps [of 512] show_nat.simps [of 51] show_nat.simps [of 5]
      digit_char_def)

text \<open>
  C1. The claim: for every integer \<open>b\<close> with \<open>1 < b < 1024\<close>, \<open>toByteUnits b\<close>
  (\<open>bytesToHumanUnits\<close>) is the integer count followed by the plural \<open>bytes\<close>, without
  decimals, and \<open>toByteUnits 1536\<close> is \<open>1.50 KB\<close>. What the code does: the loop
  already returns at \<open>i = 1\<close>, through the table's entry \<open>[1, 'byte']\<close>, so these
  counts are printed with two decimals and the singular; the last line of the function,
  which would print the count and the plural, is not reached. The second half of the
  claim holds.
\<close>

theorem toByteUnits_below_1024:
  assumes "1 < b" "b < 1024"
  shows "toByteUnits b = show_int b @ ''.00 byte'' \<and> toByteUnits 1536 = ''1.50 KB''"
proof -
  have "toByteUnits b = show_int b @ ''.00 byte''"
    using assms by (simp add: toByteUnits_def parseInt10_show_int_nonneg units_loop_small)
  with toByteUnits_1536 show ?thesis by simp
qed

theorem toByteUnits_512:
  "(1::int) < 512 \<and> (512::int) < 1024 \<and> toByteUnits 512 = ''512.00 byte'' \<and>
   toByteUnits 512 \<noteq> ''512 bytes''"
  using toByteUnits_below_1024 [of 512] by (simp add: show_int_512)

subsection \<open>\<open>getErrorMessage\<close> and \<open>null\<close>\<close>

lemma getErrorMessage_non_object: "typeof res \<noteq> ''object'' \<Longrightarrow> getErrorMessage res = Inr res"
  by (simp add: getErrorMessage_def)

lemma getErrorMessage_boom:
  "getErrorMessage (Obj [(''data'', Obj [(''error'', Obj [(''message'', Str ''boom'')])])])
     = Inr (Str ''boom'')"
  by (simp add: getErrorMessage_def)

lemma get_prop_field: "get_prop v k = Inr x \<Longrightarrow> field v k = x"
  by (simp add: field_def)

lemma get_prop_object: "typeof v = ''object'' \<Longrightarrow> v \<noteq> Null \<Longrightarrow> get_prop v k = Inr (field v k)"
  by (cases v) (auto simp: field_def split: option.splits)

lemma get_prop_truthy: "truthy v \<Longrightarrow> get_prop v k = Inr (field v k)"
  by (cases v) (auto simp: field_def split: option.splits)

text \<open>
  Apart from \<open>null\<close>, an object resolves through the chain: unless the lookup
  reaches a \<open>data.error\<close> that is \<open>null\<close>, the result is the first entry of the chain
  that resolves, and the object itself when none does.
\<close>

lemma getErrorMessage_chain:
  assumes "typeof res = ''object''" and "res \<noteq> Null"
    and "\<not> (\<not> truthy (field res ''message'') \<and> truthy (field res ''data'') \<and>
             \<not> truthy (field (field res ''data'') ''message'') \<and>
             field (field res ''data'') ''error'' = Null)"
  shows "getErrorMessage res =
           Inr (case first_some (message_chain res) of Some v \<Rightarrow> v | None \<Rightarrow> res)"
proof -
  let ?data = "field res ''data''"
  let ?derror = "field ?data ''error''"
  have r: "get_prop res k = Inr (field res k)" for k
    using assms(1,2) by (rule get_prop_object)
  show ?thesis
  proof (cases "truthy (field res ''message'')")
    case True
    then show ?thesis by (simp add: getErrorMessage_def assms(1) r message_chain_def Let_def)
  next
    case nomsg: False
    show ?thesis
    proof (cases "truthy ?data")
      case False
      with nomsg show ?thesis
        by (simp add: getErrorMessage_def assms(1) r message_chain_def Let_def)
    next
      case data: True
      then have d: "get_prop ?data k = Inr (field ?data k)" for k
        by (rule get_prop_truthy)
      show ?thesis
      proof (cases "truthy (field ?data ''message'')")
        case True
        with nomsg data show ?thesis
          by (simp add: getErrorMessage_def assms(1) r d message_chain_def Let_def)
      next
        case nodm: False
        with assms(3) nomsg data have nn: "?derror \<noteq> Null" by simp
        show ?thesis
        proof (cases "typeof ?derror = ''string''")
          case True
          with nomsg data nodm show ?thesis
            by (simp add: getErrorMessage_def assms(1) r d message_chain_def Let_def)
        next
          case nostr: False
          show ?thesis
          proof (cases "typeof ?derror = ''object''")
            case True
            from True nn have e: "get_prop ?derror k = Inr (field ?derror k)" for k
              by (rule get_prop_object)
            from nomsg data nodm nostr True show ?thesis
              by (simp add: getErrorMessage_def assms(1) r d e message_chain_def Let_def)
          next
            case False
            with nomsg data nodm nostr show ?thesis
              by (simp add: getErrorMessage_def assms(1) r d message_chain_def Let_def)
          qed
        qed
      qed
    qed
  qed
qed

text \<open>
  C3. The claim: \<open>getErrorMessage\<close> (\<open>extractErrorMessage\<close>) never throws, whatever
  it is given. What the code does: \<open>typeof null\<close> is \<open>'object'\<close>, so \<open>null\<close> passes
  the test at the top and \<open>res.message\<close> throws; and a response whose \<open>data.error\<close>
  is \<open>null\<close> passes \<open>typeof res.data.error === 'object'\<close>, so
  \<open>res.data.error.message\<close> throws.
\<close>

theorem getErrorMessage_null_throws:
  "getErrorMessage Null = Inl TypeError \<and>
   getErrorMessage (Obj [(''data'', Obj [(''error'', Null)])]) = Inl TypeError"
  by (simp add: getErrorMessage_def)

subsection \<open>\<open>slugify\<close>: which arguments are refused\<close>

lemma to_string_error:
  "to_string v = Inl e \<Longrightarrow> e = TypeError"
  "elems_text vs = Inl e \<Longrightarrow> e = TypeError"
  by (induction v and vs arbitrary: e and e rule: to_string_elems_text.induct)
     (auto split: sum.splits if_splits)

lemma atom_at_error: "atom_at c cs = Inl e \<Longrightarrow> e = SyntaxError \<or> e = Unmodelled"
  by (auto simp: atom_at_def split: if_splits)

lemma count_at_error: "count_at rest = Inl e \<Longrightarrow> e = SyntaxError \<or> e = Unmodelled"
  by (auto simp: count_at_def split: if_splits list.splits option.splits)

lemma regexp_error: "regexp s = Inl e \<Longrightarrow> e = SyntaxError \<or> e = Unmodelled"
proof (induction s arbitrary: e rule: regexp.induct)
  case 1
  then show ?case by simp
next
  case (2 c cs)
  show ?case
  proof (cases "atom_at c cs")
    case (Inl e1)
    with "2.prems" atom_at_error [of c cs e1] show ?thesis by simp
  next
    case (Inr an)
    obtain a n where an: "an = (a, n)" by (cases an)
    show ?thesis
    proof (cases "count_at (drop n cs)")
      case (Inl e2)
      with "2.prems" Inr an count_at_error [of "drop n cs" e2] show ?thesis by simp
    next
      case q: (Inr q)
      obtain lo hi m where q3: "q = (lo, hi, m)" by (cases q)
      from "2.prems" Inr an q q3 have "regexp (drop (n + m) cs) = Inl e"
        by (simp split: sum.splits)
      with "2.IH" [OF Inr an [symmetric] q] q3 show ?thesis by simp
    qed
  qed
qed

lemma regexp_not_RangeError: "regexp s \<noteq> Inl RangeError"
proof
  assume "regexp s = Inl RangeError"
  from regexp_error [OF this] show False by simp
qed

lemma to_string_not_RangeError: "to_string v \<noteq> Inl RangeError"
proof
  assume "to_string v = Inl RangeError"
  from to_string_error(1) [OF this] show False by simp
qed

lemma bind_not_RangeError:
  assumes "\<And>a. f a \<noteq> Inl RangeError"
  shows "(case to_string v of Inl e \<Rightarrow> Inl e | Inr a \<Rightarrow> f a) \<noteq> Inl RangeError"
  using assms to_string_not_RangeError [of v] by (cases "to_string v") auto

lemma slug_pattern_RangeError:
  "(slug_pattern minArg maxArg = Inl RangeError)
     = (\<not> truthy minArg \<and> minArg \<noteq> Null \<and> truthy maxArg)"
proof (cases "truthy minArg")
  case True
  then have "slug_pattern minArg maxArg \<noteq> Inl RangeError"
    unfolding slug_pattern_def
    by (cases "truthy maxArg")
       (simp_all, (intro bind_not_RangeError regexp_not_RangeError)+)
  with True show ?thesis by simp
next
  case False
  show ?thesis
  proof (cases "truthy maxArg")
    case True
    with False show ?thesis
      unfolding slug_pattern_def
      by (cases "minArg = Null")
         (simp_all, (intro bind_not_RangeError regexp_not_RangeError)+)
  next
    case nomax: False
    with False show ?thesis by (simp add: slug_pattern_def)
  qed
qed

lemma toLowerCase_abc: "toLowerCase ''abc'' = ''abc''"
  by (simp add: toLowerCase_def to_lower_def)

text \<open>
  C6. The claim: a combination of \<open>min\<close> and \<open>max\<close> outside the four branches raises
  a \<open>RangeError\<close>, for example \<open>min\<close> falsy but not \<open>null\<close> with \<open>max\<close> absent. The
  example is wrong: with \<open>max\<close> absent and \<open>min\<close> falsy the first test,
  \<open>!min && !max\<close>, holds, and \<open>rxSlugWords\<close> is used.
\<close>

theorem slugify_falsy_min_no_max:
  "slugify ''abc'' (Num 0) Undefined = Inr ''abc'' \<and>
   slugify ''abc'' (Num 0) Undefined \<noteq> Inl RangeError"
  by (simp add: slugify_def slug_pattern_def rxSlugWords_def match_all_def deburr_def
      toLowerCase_abc try_count.simps is_lower_def is_digit_def)

text \<open>
  C6, as amended. For a non-empty \<open>str\<close>, \<open>slugify\<close> raises a \<open>RangeError\<close> exactly
  when \<open>min\<close> is falsy without being \<open>null\<close> and \<open>max\<close> is truthy.
\<close>

theorem slugify_RangeError_iff:
  "str \<noteq> [] \<Longrightarrow>
     (slugify str minArg maxArg = Inl RangeError)
       = (\<not> truthy minArg \<and> minArg \<noteq> Null \<and> truthy maxArg)"
  using slug_pattern_RangeError [of minArg maxArg]
  by (cases "slug_pattern minArg maxArg") (simp_all add: slugify_def)

theorem slugify_RangeError_iff_witness:
  "''abc'' \<noteq> [] \<and> slugify ''abc'' (Num 0) (Num 5) = Inl RangeError \<and>
   slugify ''abc'' Undefined (Num 5) = Inl RangeError"
  using slugify_RangeError_iff [of "''abc''" "Num 0" "Num 5"]
    slugify_RangeError_iff [of "''abc''" Undefined "Num 5"]
  by simp

subsection \<open>\<open>slugify\<close> with \<open>null\<close> and a maximum\<close>

lemma pattern_null_2:
  "slug_pattern Null (Num 2) =
     Inr [Piece Alnum 1 (Some 1), Piece (Lit (CHR ''{'')) 1 (Some 1),
          Piece (Lit (CHR '','')) 1 (Some 1), Piece (Lit (CHR ''2'')) 1 (Some 1),
          Piece (Lit (CHR ''}'')) 1 (Some 1)]"
  by (simp add: slug_pattern_def digits_text_def show_nat_digit digit_char_def
      atom_at_def count_at_def braces_def rx_meta_def is_digit_def)

text \<open>
  C5. The claim: \<open>slugify(str, null, max)\<close> extracts the runs of \<open>[a-z0-9]\<close> of length
  at most \<open>max\<close>. What the code does: it builds the source \<open>[a-z0-9]{,max}\<close>, and
  braces without a lower bound are no repeat count in JavaScript: the expression is
  one character of the class followed by the text \<open>{,max}\<close> as written. On \<open>abc\<close> it
  finds nothing, where the claim promises \<open>ab-c\<close>.
\<close>

theorem slugify_null_max:
  "slugify ''abc'' Null (Num 2) = Inr '''' \<and> slugify ''abc'' Null (Num 2) \<noteq> Inr ''ab-c''"
  by (simp add: slugify_def pattern_null_2 match_all_def deburr_def
      toLowerCase_abc try_count.simps is_lower_def is_digit_def)

subsection \<open>\<open>checkSubject\<close>: the input is a regular expression\<close>

lemma to_lower_plain: "\<not> rx_special c \<Longrightarrow> \<not> rx_special (to_lower c)"
  by (auto simp: to_lower_def rx_special_def split: option.splits if_splits)

lemma atom_at_plain: "\<not> rx_special c \<Longrightarrow> atom_at c cs = Inr (Lit c, 0)"
  by (auto simp: atom_at_def rx_special_def rx_meta_def)

lemma count_at_plain: "\<not> rx_special q \<Longrightarrow> count_at (q # qs) = Inr (1, Some 1, 0)"
  by (auto simp: count_at_def rx_special_def)

lemma regexp_plain: "list_all (\<lambda>c. \<not> rx_special c) s \<Longrightarrow> regexp s = Inr (map lit s)"
proof (induction s)
  case Nil
  then show ?case by simp
next
  case (Cons c cs)
  then have c: "\<not> rx_special c" and cs: "list_all (\<lambda>c. \<not> rx_special c) cs" by simp_all
  have "count_at cs = Inr (1, Some 1, 0)"
  proof (cases cs)
    case Nil
    then show ?thesis by (simp add: count_at_def)
  next
    case (Cons q qs)
    with cs show ?thesis by (simp add: count_at_plain)
  qed
  with Cons.IH [OF cs] c show ?case
    by (simp add: atom_at_plain lit_def)
qed

lemma match_here_lits:
  "match_here (map lit p) s = (if prefix p s then Some (replicate (length p) 1) else None)"
proof (induction p arbitrary: s)
  case Nil
  then show ?case by simp
next
  case (Cons c p)
  show ?case
  proof (cases s)
    case Nil
    then show ?thesis by (simp add: lit_def try_count.simps)
  next
    case (Cons x xs)
    show ?thesis
    proof (cases "x = c")
      case True
      have g: "greedy (lit c) (c # xs) = Suc 0"
        by (simp add: lit_def)
      have "match_here (map lit (c # p)) (c # xs) = try_count (lit c) (map lit p) (c # xs) (Suc 0)"
        using g by simp
      also have "\<dots> = (case match_here (map lit p) xs of
                          Some ks \<Rightarrow> Some (Suc 0 # ks) | None \<Rightarrow> None)"
        by (simp add: try_count.simps [of _ _ _ "Suc 0"] try_count.simps [of _ _ _ 0] lit_def
            split: option.splits)
      finally show ?thesis
        using Cons True Cons.IH [of xs] by simp
    next
      case False
      with Cons show ?thesis by (simp add: lit_def try_count.simps)
    qed
  qed
qed

lemma search_at_lits: "(search_at (map lit p) s i \<noteq> - 1) = sublist p s"
proof (induction s arbitrary: i)
  case Nil
  then show ?case by (simp add: match_here_lits)
next
  case (Cons c cs)
  then show ?case
    by (simp add: match_here_lits sublist_Cons_right del: match_here.simps)
qed

text \<open>
  C2, as amended. Let \<open>subject\<close> and \<open>input\<close> be the strings the two arguments are
  coerced to, and let \<open>input\<close> hold no character that is special in a regular
  expression. Then \<open>checkSubject\<close> (\<open>matchesSubject\<close>) returns true if the two
  strings are equal, and otherwise returns true exactly when \<open>input\<close> is not empty
  and its lower-case form occurs as a substring of the lower-case form of \<open>subject\<close>.
\<close>

theorem checkSubject_plain_input:
  assumes "to_string subject0 = Inr subject" and "to_string input0 = Inr input"
    and "list_all (\<lambda>c. \<not> rx_special c) input"
  shows "checkSubject subject0 input0 =
           Inr (subject = input \<or>
                (input \<noteq> [] \<and> sublist (toLowerCase input) (toLowerCase subject)))"
proof -
  from assms(3) have "list_all (\<lambda>c. \<not> rx_special c) (toLowerCase input)"
    by (simp add: toLowerCase_def list_all_iff to_lower_plain)
  then have "regexp (toLowerCase input) = Inr (map lit (toLowerCase input))"
    by (rule regexp_plain)
  with assms(1,2) show ?thesis
    by (simp add: checkSubject_def search_def search_at_lits)
qed

lemma toLowerCase_Hello: "toLowerCase ''Hello'' = ''hello''"
  by (simp add: toLowerCase_def to_lower_def)

lemma toLowerCase_ell: "toLowerCase ''ell'' = ''ell''"
  by (simp add: toLowerCase_def to_lower_def)

theorem checkSubject_plain_input_witness:
  "checkSubject (Str ''Hello'') (Str ''ell'') = Inr True \<and>
   checkSubject (Str ''Hello'') (Str '''') = Inr False"
proof -
  have s: "sublist ''ell'' ''hello''"
    by (simp add: sublist_Cons_right)
  have "list_all (\<lambda>c. \<not> rx_special c) ''ell''" by (simp add: rx_special_def)
  from checkSubject_plain_input [of "Str ''Hello''" "''Hello''" "Str ''ell''" "''ell''", OF _ _ this]
       checkSubject_plain_input [of "Str ''Hello''" "''Hello''" "Str ''''" "''''"]
       s
  show ?thesis by (simp add: toLowerCase_Hello toLowerCase_ell)
qed

text \<open>
  C2. The claim: the input is searched as a literal substring. The code hands it to
  \<open>search\<close>, which reads it as a regular expression: a dot matches any character,
  so \<open>checkSubject("Hello", ".")\<close> is true though \<open>Hello\<close> holds no dot.
\<close>

theorem checkSubject_dot:
  "checkSubject (Str ''Hello'') (Str ''.'') = Inr True \<and>
   \<not> sublist (toLowerCase ''.'') (toLowerCase ''Hello'')"
proof -
  have "toLowerCase ''.'' = ''.''" by (simp add: toLowerCase_def to_lower_def)
  moreover have "regexp ''.'' = Inr [Piece AnyChar 1 (Some 1)]"
    by (simp add: atom_at_def count_at_def)
  moreover have "search [Piece AnyChar 1 (Some 1)] ''hello'' = 0"
    by (simp add: search_def try_count.simps)
  moreover have "\<not> sublist ''.'' ''hello''"
    by (simp add: sublist_Cons_right)
  ultimately show ?thesis
    by (simp add: checkSubject_def toLowerCase_Hello)
qed

subsection \<open>\<open>placeholder\<close> against the specification's description\<close>

lemma atom_ok_word: "atom_ok WordChar = is_word"
  by (rule ext) (simp add: is_word_def)

lemma close_not_word: "\<not> is_word (CHR ''}'')"
  by (simp add: is_word_def is_lower_def is_upper_def is_digit_def)

lemma rxPlaceholder_pieces: "rxPlaceholder = [lit (CHR ''{''), wordp, lit (CHR ''}'')]"
  by (simp add: rxPlaceholder_def lit_def wordp_def)

lemma least_lit: "least (lit c) = Suc 0"
  by (simp add: lit_def)

lemma least_wordp: "least wordp = Suc 0"
  by (simp add: wordp_def)

lemma greedy_wordp: "greedy wordp s = length (takeWhile is_word s)"
  by (simp add: wordp_def atom_ok_word)

lemma greedy_lit: "greedy (lit c) s = (if take 1 s = [c] then Suc 0 else 0)"
  by (cases s) (auto simp: lit_def)

lemma match_close: "match_here [lit (CHR ''}'')] t = (if take 1 t = ''}'' then Some [1] else None)"
proof -
  have "prefix ''}'' t = (take 1 t = ''}'')" by (cases t) auto
  with match_here_lits [of "''}''" t] show ?thesis by simp
qed

text \<open>The word piece gives characters back in vain: before the end of the run no brace can follow.\<close>

lemma try_count_word_below:
  assumes "k < length (takeWhile is_word cs)"
  shows "try_count wordp [lit (CHR ''}'')] cs k = None"
  using assms
proof (induction k)
  case 0
  then show ?case by (subst try_count.simps) (simp add: least_wordp)
next
  case (Suc k)
  let ?n = "length (takeWhile is_word cs)"
  from Suc.prems have "Suc k < length cs"
    using length_takeWhile_le [of is_word cs] by simp
  then have d: "drop (Suc k) cs = cs ! Suc k # drop (Suc (Suc k)) cs"
    by (simp add: Cons_nth_drop_Suc)
  from Suc.prems have "takeWhile is_word cs ! Suc k \<in> set (takeWhile is_word cs)"
    by (rule nth_mem)
  then have "is_word (takeWhile is_word cs ! Suc k)"
    by (auto dest: set_takeWhileD)
  with Suc.prems have "is_word (cs ! Suc k)" by (simp add: takeWhile_nth)
  with close_not_word have ne: "cs ! Suc k \<noteq> CHR ''}''" by auto
  from Suc.IH Suc.prems have below: "try_count wordp [lit (CHR ''}'')] cs k = None"
    by simp
  have m: "match_here [lit (CHR ''}'')] (drop (Suc k) cs) = None"
    using ne by (simp only: match_close d) simp
  show ?case
    by (subst try_count.simps) (simp only: m least_wordp, simp add: below)
qed

lemma try_count_word_top:
  "try_count wordp [lit (CHR ''}'')] cs (length (takeWhile is_word cs)) =
     (if takeWhile is_word cs \<noteq> [] \<and> take 1 (dropWhile is_word cs) = ''}''
      then Some [length (takeWhile is_word cs), 1] else None)"
proof (cases "length (takeWhile is_word cs)")
  case 0
  then show ?thesis by (subst try_count.simps) (simp add: least_wordp)
next
  case (Suc k)
  then have below: "try_count wordp [lit (CHR ''}'')] cs k = None"
    by (simp add: try_count_word_below)
  have d: "drop (Suc k) cs = dropWhile is_word cs"
    using Suc by (simp add: dropWhile_eq_drop)
  have m: "match_here [lit (CHR ''}'')] (drop (Suc k) cs) =
             (if take 1 (dropWhile is_word cs) = ''}'' then Some [1] else None)"
    by (simp only: match_close d)
  have ne: "takeWhile is_word cs \<noteq> []" using Suc by auto
  show ?thesis
    unfolding Suc
    by (subst try_count.simps) (simp only: m least_wordp, simp add: ne below)
qed

lemma match_placeholder:
  "match_here rxPlaceholder s =
     (case s of
        [] \<Rightarrow> None
      | c # cs \<Rightarrow>
          if c = CHR ''{'' \<and> takeWhile is_word cs \<noteq> [] \<and> take 1 (dropWhile is_word cs) = ''}''
          then Some [1, length (takeWhile is_word cs), 1] else None)"
proof (cases s)
  case Nil
  have "try_count (lit (CHR ''{'')) [wordp, lit (CHR ''}'')] [] 0 = None"
    by (subst try_count.simps) (simp add: least_lit)
  with Nil show ?thesis
    by (simp add: rxPlaceholder_pieces greedy_lit)
next
  case (Cons c cs)
  have inner: "match_here [wordp, lit (CHR ''}'')] cs =
                 (if takeWhile is_word cs \<noteq> [] \<and> take 1 (dropWhile is_word cs) = ''}''
                  then Some [length (takeWhile is_word cs), 1] else None)"
    using try_count_word_top [of cs] by (simp add: greedy_wordp)
  have zero: "try_count (lit (CHR ''{'')) [wordp, lit (CHR ''}'')] (c # cs) 0 = None"
    by (subst try_count.simps) (simp add: least_lit)
  show ?thesis
  proof (cases "c = CHR ''{''")
    case True
    have "match_here rxPlaceholder (c # cs) =
            try_count (lit (CHR ''{'')) [wordp, lit (CHR ''}'')] (c # cs) (Suc 0)"
      using True by (simp add: rxPlaceholder_pieces greedy_lit)
    also have "\<dots> = (case match_here [wordp, lit (CHR ''}'')] cs of
                        Some ks \<Rightarrow> Some (Suc 0 # ks) | None \<Rightarrow> None)"
      by (subst try_count.simps)
         (simp add: least_lit zero split: option.splits del: match_here.simps)
    finally show ?thesis
      using Cons True by (simp only: inner) simp
  next
    case False
    have "match_here rxPlaceholder (c # cs) =
            try_count (lit (CHR ''{'')) [wordp, lit (CHR ''}'')] (c # cs) 0"
      using False by (simp add: rxPlaceholder_pieces greedy_lit)
    with zero Cons False show ?thesis by simp
  qed
qed


lemma scan_placeholder_token:
  assumes "takeWhile is_word cs \<noteq> []" and "take 1 (dropWhile is_word cs) = ''}''"
  shows "scan rxPlaceholder (CHR ''{'' # cs) =
           Match (CHR ''{'' # takeWhile is_word cs @ ''}'')
                 [1, length (takeWhile is_word cs), 1]
           # scan rxPlaceholder (drop 1 (dropWhile is_word cs))"
proof -
  let ?n = "length (takeWhile is_word cs)"
  from assms(2) obtain r where r: "dropWhile is_word cs = CHR ''}'' # r"
    by (cases "dropWhile is_word cs") auto
  have cs: "cs = takeWhile is_word cs @ CHR ''}'' # r"
    using takeWhile_dropWhile_id [of is_word cs] r by simp
  have t: "take (Suc ?n) cs = takeWhile is_word cs @ ''}''"
    by (subst (2) cs) simp
  have d: "drop (Suc ?n) cs = r"
    by (subst (2) cs) simp
  have m: "match_here rxPlaceholder (CHR ''{'' # cs) = Some [1, ?n, 1]"
    using assms by (simp add: match_placeholder del: match_here.simps)
  show ?thesis
    by (simp add: m t d r del: match_here.simps)
qed

lemma scan_placeholder_skip:
  assumes "\<not> (c = CHR ''{'' \<and> takeWhile is_word cs \<noteq> [] \<and> take 1 (dropWhile is_word cs) = ''}'')"
  shows "scan rxPlaceholder (c # cs) = Skip c # scan rxPlaceholder cs"
proof -
  have "match_here rxPlaceholder (c # cs) = None"
    using assms by (simp add: match_placeholder del: match_here.simps)
  then show ?thesis by (simp del: match_here.simps)
qed

lemma group1_token:
  "group1 (CHR ''{'' # ident @ ''}'') [Suc 0, length ident, Suc 0] = ident"
  by simp

lemma replace_scan_substitute:
  "replace_segs (\<lambda>t ks. f (group1 t ks)) (scan rxPlaceholder s) = substitute f s"
proof (induction s rule: length_induct)
  case (1 s)
  let ?f = "\<lambda>t ks. f (group1 t ks)"
  show ?case
  proof (cases s)
    case Nil
    then show ?thesis by (simp add: match_placeholder del: match_here.simps)
  next
    case (Cons c cs)
    let ?ident = "takeWhile is_word cs" and ?after = "dropWhile is_word cs"
    show ?thesis
    proof (cases "c = CHR ''{'' \<and> ?ident \<noteq> [] \<and> take 1 ?after = ''}''")
      case True
      have "length (drop 1 ?after) < length s"
        using Cons length_dropWhile_le [of is_word cs] by simp
      with 1 have IH: "replace_segs ?f (scan rxPlaceholder (drop 1 ?after))
                         = substitute f (drop 1 ?after)"
        by blast
      from True have sc: "scan rxPlaceholder (c # cs) =
          Match (CHR ''{'' # ?ident @ ''}'') [1, length ?ident, 1]
          # scan rxPlaceholder (drop 1 ?after)"
        using scan_placeholder_token [of cs] by simp
      show ?thesis
        unfolding Cons sc
        using True IH
        by (simp add: group1_token Let_def del: group1.simps cong: sum.case_cong)
    next
      case False
      have "length cs < length s" using Cons by simp
      with 1 have IH: "replace_segs ?f (scan rxPlaceholder cs) = substitute f cs"
        by blast
      from False have sc: "scan rxPlaceholder (c # cs) = Skip c # scan rxPlaceholder cs"
        by (rule scan_placeholder_skip)
      show ?thesis
        unfolding Cons sc
        using False IH
        by (auto simp: Let_def cong: sum.case_cong)
    qed
  qed
qed

lemma placeholder_object:
  "placeholder str (Obj kvs) = substitute (param_or_name kvs) str"
  by (simp add: placeholder_def replace_scan_substitute)

text \<open>Two token rules that agree on the identifiers of a string rewrite it alike.\<close>

lemma substitute_agree:
  "(\<And>p. p \<in> set (tokens s) \<Longrightarrow> f p = g p) \<Longrightarrow> substitute f s = substitute g s"
proof (induction s rule: length_induct)
  case (1 s)
  show ?case
  proof (cases s)
    case Nil
    then show ?thesis by simp
  next
    case (Cons c cs)
    let ?ident = "takeWhile is_word cs" and ?after = "dropWhile is_word cs"
    show ?thesis
    proof (cases "c = CHR ''{'' \<and> ?ident \<noteq> [] \<and> take 1 ?after = ''}''")
      case True
      have len: "length (drop 1 ?after) < length s"
        using Cons length_dropWhile_le [of is_word cs] by simp
      from True Cons have tk: "tokens s = ?ident # tokens (drop 1 ?after)"
        by (simp add: Let_def)
      with "1.prems" have here: "f ?ident = g ?ident" by simp
      from tk "1.prems" have "\<And>p. p \<in> set (tokens (drop 1 ?after)) \<Longrightarrow> f p = g p" by simp
      with 1 len have "substitute f (drop 1 ?after) = substitute g (drop 1 ?after)"
        by blast
      with True here Cons show ?thesis by (simp add: Let_def cong: sum.case_cong)
    next
      case False
      have len: "length cs < length s" using Cons by simp
      from False Cons have "tokens s = tokens cs" by (auto simp: Let_def)
      with "1.prems" have "\<And>p. p \<in> set (tokens cs) \<Longrightarrow> f p = g p" by simp
      with 1 len have "substitute f cs = substitute g cs" by blast
      with False Cons show ?thesis by (auto simp: Let_def cong: sum.case_cong)
    qed
  qed
qed

lemma param_or_name_own:
  "map_of kvs p \<noteq> None \<or> inherited_text p = None \<Longrightarrow> param_or_name kvs p = token_text kvs p"
  by (auto simp: param_or_name_def token_text_def split: option.splits)

text \<open>
  Where \<open>params\<close> is falsy the string comes back as it is. Where it is an object,
  \<open>placeholder\<close> does what the specification describes on every string none of whose
  identifiers names an inherited member that \<open>params\<close> does not define itself; and
  the two examples of the specification come out as \<open>Hi Amy\<close> and \<open>Hi name\<close>.
\<close>

lemma placeholder_falsy: "\<not> truthy params \<Longrightarrow> placeholder str params = Inr str"
  by (simp add: placeholder_def)

lemma placeholder_follows_spec:
  assumes "\<And>p. p \<in> set (tokens str) \<Longrightarrow> map_of kvs p \<noteq> None \<or> inherited_text p = None"
  shows "placeholder str (Obj kvs) = substitute_spec kvs str"
proof -
  have "param_or_name kvs p = token_text kvs p" if "p \<in> set (tokens str)" for p
    using assms [OF that] by (rule param_or_name_own)
  then have "substitute (param_or_name kvs) str = substitute (token_text kvs) str"
    by (rule substitute_agree)
  then show ?thesis by (simp add: placeholder_object substitute_spec_def)
qed

lemma word_chars:
  "is_word c = (is_lower c \<or> is_upper c \<or> is_digit c \<or> c = CHR ''_'')"
  by (simp add: is_word_def)

lemma placeholder_examples:
  "placeholder ''Hi {name}'' (Obj [(''name'', Str ''Amy'')]) = Inr ''Hi Amy''"
  "placeholder ''Hi {name}'' (Obj []) = Inr ''Hi name''"
  by (simp_all add: placeholder_object param_or_name_def inherited_text_def
      object_prototype_functions_def word_chars is_lower_def is_upper_def is_digit_def)

text \<open>
  C9. The claim: for every string and every \<open>params\<close> mapping, a token whose
  identifier is not found in \<open>params\<close> is replaced by the bare identifier. What the
  code does: \<open>params[p]\<close> also finds what \<open>params\<close> inherits, so with the empty
  mapping the token \<open>{toString}\<close> is replaced by the text of the function
  \<open>Object.prototype.toString\<close>, where the specification's description gives
  \<open>toString\<close>.
\<close>

theorem placeholder_inherited_name:
  "placeholder ''{toString}'' (Obj []) = Inr ''function toString() { [native code] }'' \<and>
   substitute_spec [] ''{toString}'' = Inr ''toString''"
  by (simp add: placeholder_object substitute_spec_def param_or_name_def token_text_def
      inherited_text_def object_prototype_functions_def word_chars
      is_lower_def is_upper_def is_digit_def)

subsection \<open>\<open>mergeRecursive\<close>: what happens to one key\<close>





























end
